theory Spec2Isabelle
  imports Main "HOL-Library.AList"
begin

section \<open>Python strings\<close>

text \<open>
  A Python \<open>str\<close> is modelled as a \<open>string\<close> whose characters are the code points
  below 256. On that range the whitespace of \<open>str.strip\<close> and \<open>str.split\<close> is the set
  below, and the only decimal digits are \<open>0\<close> to \<open>9\<close>.
\<close>

definition py_isspace :: "char \<Rightarrow> bool" where
  "py_isspace c =
     (let n = (of_char c :: nat)
      in (9 \<le> n \<and> n \<le> 13) \<or> (28 \<le> n \<and> n \<le> 32) \<or> n = 133 \<or> n = 160)"

definition is_digit :: "char \<Rightarrow> bool" where
  "is_digit c = (let n = (of_char c :: nat) in 48 \<le> n \<and> n \<le> 57)"

definition digit_val :: "char \<Rightarrow> nat" where
  "digit_val c = of_char c - 48"

text \<open>\<open>s.strip()\<close>: whitespace removed at both ends.\<close>

definition lstrip :: "string \<Rightarrow> string" where
  "lstrip s = dropWhile py_isspace s"

definition rstrip :: "string \<Rightarrow> string" where
  "rstrip s = rev (dropWhile py_isspace (rev s))"

definition strip :: "string \<Rightarrow> string" where
  "strip s = rstrip (lstrip s)"

text \<open>\<open>s.replace(c, '')\<close> for a one-character \<open>c\<close>: every occurrence is removed.\<close>

definition remove_char :: "char \<Rightarrow> string \<Rightarrow> string" where
  "remove_char c s = filter (\<lambda>x. x \<noteq> c) s"

text \<open>\<open>sub in s\<close>: \<open>sub\<close> occurs in \<open>s\<close> as a contiguous substring.\<close>

fun starts_with :: "string \<Rightarrow> string \<Rightarrow> bool" where
  "starts_with [] s = True"
| "starts_with (p # ps) [] = False"
| "starts_with (p # ps) (c # cs) = (p = c \<and> starts_with ps cs)"

fun contains :: "string \<Rightarrow> string \<Rightarrow> bool" where
  "contains sub [] = (sub = [])"
| "contains sub (c # cs) = (starts_with sub (c # cs) \<or> contains sub cs)"

text \<open>\<open>s.lower()\<close> on the modelled range: \<open>A\<close> to \<open>Z\<close> and the accented capitals.\<close>

definition lower_char :: "char \<Rightarrow> char" where
  "lower_char c =
     (let n = (of_char c :: nat)
      in if (65 \<le> n \<and> n \<le> 90) \<or> (192 \<le> n \<and> n \<le> 222 \<and> n \<noteq> 215)
         then char_of (n + 32) else c)"

definition lower :: "string \<Rightarrow> string" where
  "lower s = map lower_char s"

section \<open>The library parsers the validator calls\<close>

subsection \<open>\<open>float(s)\<close>\<close>

text \<open>
  Only whether \<open>float\<close> raises \<open>ValueError\<close> matters to the validator, so the model
  is the acceptance test of CPython's parser. Whitespace beyond ASCII is first turned
  into a blank; underscores may stand between two digits only, and are removed; ASCII
  whitespace is dropped at both ends; what is left must be read to its end either as a
  decimal literal (sign, digits with an optional point, at least one digit, an optional
  exponent with at least one digit, at most \<open>10^9\<close> significant and fractional digits) or
  as a signed \<open>inf\<close>, \<open>infinity\<close> or \<open>nan\<close> in any letter case.
\<close>

definition ascii_isspace :: "char \<Rightarrow> bool" where
  "ascii_isspace c = (let n = (of_char c :: nat) in (9 \<le> n \<and> n \<le> 13) \<or> n = 32)"

definition space_to_ascii :: "char \<Rightarrow> char" where
  "space_to_ascii c = (if 127 \<le> (of_char c :: nat) \<and> py_isspace c then CHR '' '' else c)"

fun underscores_ok :: "char \<Rightarrow> string \<Rightarrow> bool" where
  "underscores_ok prev [] = (prev \<noteq> CHR ''_'')"
| "underscores_ok prev (c # cs) =
     (if c = CHR ''_'' then is_digit prev \<and> underscores_ok c cs
      else (prev \<noteq> CHR ''_'' \<or> is_digit c) \<and> underscores_ok c cs)"

definition drop_sign :: "string \<Rightarrow> string" where
  "drop_sign s = (case s of [] \<Rightarrow> [] | c # cs \<Rightarrow> if c = CHR ''-'' \<or> c = CHR ''+'' then cs else s)"

definition MAX_DIGITS :: int where
  "MAX_DIGITS = 1000000000"

definition exponent_ok :: "string \<Rightarrow> bool" where
  "exponent_ok r =
     (case r of [] \<Rightarrow> True
      | c # cs \<Rightarrow> (c = CHR ''e'' \<or> c = CHR ''E'') \<and>
          (let t = drop_sign cs in t \<noteq> [] \<and> list_all is_digit t))"

definition strtod_ok :: "string \<Rightarrow> bool" where
  "strtod_ok s =
     (let s1 = drop_sign s;
          ip = takeWhile is_digit s1;
          r1 = dropWhile is_digit s1;
          has_point = (r1 \<noteq> [] \<and> hd r1 = CHR ''.'');
          fp = (if has_point then takeWhile is_digit (tl r1) else []);
          r2 = (if has_point then dropWhile is_digit (tl r1) else r1);
          nd_int = length (dropWhile (\<lambda>c. c = CHR ''0'') ip);
          ndigits = nd_int +
            length (if nd_int = 0 then dropWhile (\<lambda>c. c = CHR ''0'') fp else fp);
          fraclen = length fp
      in (ip \<noteq> [] \<or> fp \<noteq> []) \<and> int ndigits \<le> MAX_DIGITS \<and> int fraclen \<le> MAX_DIGITS \<and>
         exponent_ok r2)"

fun ci_match :: "string \<Rightarrow> string \<Rightarrow> string \<Rightarrow> bool" where
  "ci_match [] [] [] = True"
| "ci_match (c # cs) (l # ls) (u # us) = ((c = l \<or> c = u) \<and> ci_match cs ls us)"
| "ci_match _ _ _ = False"

definition inf_or_nan_ok :: "string \<Rightarrow> bool" where
  "inf_or_nan_ok s =
     (let t = drop_sign s
      in ci_match t ''inf'' ''INF'' \<or> ci_match t ''infinity'' ''INFINITY'' \<or>
         ci_match t ''nan'' ''NAN'')"

definition float_ok :: "string \<Rightarrow> bool" where
  "float_ok s =
     (let t = map space_to_ascii s;
          u = remove_char (CHR ''_'') t;
          v = rev (dropWhile ascii_isspace (rev (dropWhile ascii_isspace u)))
      in underscores_ok (CHR 0x00) t \<and> (strtod_ok v \<or> inf_or_nan_ok v))"

subsection \<open>\<open>datetime.strptime(s, '%Y-%m-%d')\<close>\<close>

text \<open>
  The format compiles to the regular expression
  \<open>(\d\d\d\d)-(1[0-2]|0[1-9]|[1-9])-(3[0-1]|[1-2]\d|0[1-9]|[1-9]| [1-9])\<close>, which must
  match the whole string; the three numbers must then be a date of the proleptic
  Gregorian calendar with a year from 1 on. Anything else raises \<open>ValueError\<close>.
\<close>

definition digit19 :: "char \<Rightarrow> bool" where
  "digit19 c = (is_digit c \<and> c \<noteq> CHR ''0'')"

definition month_re :: "string \<Rightarrow> bool" where
  "month_re m =
     (case m of
        [a] \<Rightarrow> digit19 a
      | [a, b] \<Rightarrow> (a = CHR ''1'' \<and> (b = CHR ''0'' \<or> b = CHR ''1'' \<or> b = CHR ''2'')) \<or>
                  (a = CHR ''0'' \<and> digit19 b)
      | _ \<Rightarrow> False)"

definition day_re :: "string \<Rightarrow> bool" where
  "day_re d =
     (case d of
        [a] \<Rightarrow> digit19 a
      | [a, b] \<Rightarrow> (a = CHR ''3'' \<and> (b = CHR ''0'' \<or> b = CHR ''1'')) \<or>
                  ((a = CHR ''1'' \<or> a = CHR ''2'') \<and> is_digit b) \<or>
                  (a = CHR ''0'' \<and> digit19 b) \<or>
                  (a = CHR '' '' \<and> digit19 b)
      | _ \<Rightarrow> False)"

text \<open>\<open>int(g)\<close> of a matched group: blanks around the digits are ignored.\<close>

definition group_int :: "string \<Rightarrow> nat" where
  "group_int g = foldl (\<lambda>n c. 10 * n + digit_val c) 0 (filter is_digit g)"

definition is_leap :: "nat \<Rightarrow> bool" where
  "is_leap y = (y mod 4 = 0 \<and> (y mod 100 \<noteq> 0 \<or> y mod 400 = 0))"

definition days_in_month :: "nat \<Rightarrow> nat \<Rightarrow> nat" where
  "days_in_month y m =
     (if m = 2 then (if is_leap y then 29 else 28)
      else if m = 4 \<or> m = 6 \<or> m = 9 \<or> m = 11 then 30 else 31)"

definition strptime_ok :: "string \<Rightarrow> bool" where
  "strptime_ok s =
     (let ys = take 4 s;
          r = drop 4 s;
          ms = takeWhile (\<lambda>c. c \<noteq> CHR ''-'') (drop 1 r);
          r' = dropWhile (\<lambda>c. c \<noteq> CHR ''-'') (drop 1 r);
          ds = drop 1 r'
      in length ys = 4 \<and> list_all is_digit ys \<and>
         r \<noteq> [] \<and> hd r = CHR ''-'' \<and> month_re ms \<and>
         r' \<noteq> [] \<and> day_re ds \<and>
         1 \<le> group_int ys \<and>
         group_int ds \<le> days_in_month (group_int ys) (group_int ms))"

section \<open>The validator\<close>

text \<open>
  \<open>validate_table(data: List[List[str]])\<close> walks the rows and the cells of each row with
  \<open>enumerate\<close> and appends one dictionary per finding to \<open>validation_results\<close>. The
  dictionary is the record \<open>finding\<close>; the key \<open>type\<close> is the field \<open>ftype\<close>.
\<close>

record finding =
  row :: nat
  column :: nat
  ftype :: string
  severity :: string
  message :: string

definition mandatory_finding :: "nat \<Rightarrow> nat \<Rightarrow> finding" where
  "mandatory_finding row_idx col_idx =
     \<lparr>row = row_idx, column = col_idx, ftype = ''error'', severity = ''critical'',
      message = ''Mandatory field cannot be empty''\<rparr>"

definition numeric_finding :: "nat \<Rightarrow> nat \<Rightarrow> finding" where
  "numeric_finding row_idx col_idx =
     \<lparr>row = row_idx, column = col_idx, ftype = ''error'', severity = ''critical'',
      message = ''Value must be numeric''\<rparr>"

definition date_finding :: "nat \<Rightarrow> nat \<Rightarrow> finding" where
  "date_finding row_idx col_idx =
     \<lparr>row = row_idx, column = col_idx, ftype = ''error'', severity = ''warning'',
      message = ''Invalid date format (should be YYYY-MM-DD)''\<rparr>"

definition ocr_finding :: "nat \<Rightarrow> nat \<Rightarrow> finding" where
  "ocr_finding row_idx col_idx =
     \<lparr>row = row_idx, column = col_idx, ftype = ''warning'', severity = ''info'',
      message = ''Possible OCR confusion (O/0, l/1, S/5)''\<rparr>"

text \<open>
  The body of the inner loop: the results so far go in, the results after this cell
  come out. The header row is skipped by \<open>continue\<close>; the four checks follow in the
  source's order, each appending at most one finding.
\<close>

definition validate_cell :: "nat \<Rightarrow> nat \<Rightarrow> string \<Rightarrow> finding list \<Rightarrow> finding list" where
  "validate_cell row_idx col_idx cell validation_results =
     (if row_idx = 0 then validation_results
      else
        let r1 = (if strip cell = [] \<and> col_idx \<in> set [0, 1, 2]
                  then validation_results @ [mandatory_finding row_idx col_idx]
                  else validation_results);
            r2 = (if col_idx \<in> set [3, 4]
                  then (if float_ok (strip (remove_char (CHR '','') cell)) then r1
                        else r1 @ [numeric_finding row_idx col_idx])
                  else r1);
            r3 = (if col_idx = 2
                  then (if strptime_ok (strip cell) then r2
                        else r2 @ [date_finding row_idx col_idx])
                  else r2);
            r4 = (if list_ex (\<lambda>digraph. contains digraph cell) [''O0'', ''l1'', ''S5'']
                  then r3 @ [ocr_finding row_idx col_idx]
                  else r3)
        in r4)"

definition validate_row :: "nat \<Rightarrow> string list \<Rightarrow> finding list \<Rightarrow> finding list" where
  "validate_row row_idx cells_of_row validation_results =
     fold (\<lambda>(col_idx, cell). validate_cell row_idx col_idx cell)
          (enumerate 0 cells_of_row) validation_results"

definition validate_table :: "string list list \<Rightarrow> finding list" where
  "validate_table data =
     fold (\<lambda>(row_idx, r). validate_row row_idx r) (enumerate 0 data) []"

text \<open>The findings a report holds for one cell, in the order they were appended.\<close>

definition findings_at :: "nat \<Rightarrow> nat \<Rightarrow> finding list \<Rightarrow> finding list" where
  "findings_at i j fs = filter (\<lambda>f. row f = i \<and> column f = j) fs"

text \<open>
  The date pattern as the specification words it: a 4-digit year, a 2-digit month and a
  2-digit day, joined by hyphens. It is not taken from the source; it is what the
  validator's date check is compared with.
\<close>

definition spec_iso_date_pattern :: "string \<Rightarrow> bool" where
  "spec_iso_date_pattern s =
     (length s = 10 \<and> list_all is_digit (take 4 s) \<and> s ! 4 = CHR ''-'' \<and>
      list_all is_digit (take 2 (drop 5 s)) \<and> s ! 7 = CHR ''-'' \<and>
      list_all is_digit (drop 8 s))"

text \<open>
  A number as the specification's example writes it: an optional sign, then digits with
  at most one decimal point and at least one digit. It is not taken from the source; it
  is what the validator's numeric check is compared with.
\<close>

definition spec_plain_number :: "string \<Rightarrow> bool" where
  "spec_plain_number s =
     (let body = (case s of [] \<Rightarrow> []
                  | c # cs \<Rightarrow> if c = CHR ''-'' \<or> c = CHR ''+'' then cs else s)
      in list_all (\<lambda>c. is_digit c \<or> c = CHR ''.'') body \<and>
         length (filter (\<lambda>c. c = CHR ''.'') body) \<le> 1 \<and>
         list_ex is_digit body)"

text \<open>The characters a plain number is written with.\<close>

definition plain_char :: "char \<Rightarrow> bool" where
  "plain_char c = (is_digit c \<or> c = CHR ''.'' \<or> c = CHR ''-'' \<or> c = CHR ''+'')"

section \<open>A sample ledger\<close>

text \<open>
  A table whose column 3 holds texts that \<open>float\<close> accepts and whose column 4 holds
  texts that it refuses.
\<close>

definition amounts_table :: "string list list" where
  "amounts_table =
     [[''Id'', ''Name'', ''Date'', ''Amount'', ''Tax''],
      [''1'', ''Rent'', ''2024-01-15'', ''1,234.5'', ''12a4''],
      [''2'', ''Fuel'', ''2024-01-16'', ''-5'', ''--5''],
      [''3'', ''Ink'', ''2024-01-17'', ''+1.5e-3'', ''1e''],
      [''4'', ''Pens'', ''2024-01-18'', '' .5 '', ''.''],
      [''5'', ''Tea'', ''2024-01-19'', ''1_000'', ''1__0''],
      [''6'', ''Tax'', ''2024-01-20'', ''nan'', ''infin''],
      [''7'', ''Fee'', ''2024-01-21'', ''-Infinity'', []]]"

section \<open>Errors\<close>

text \<open>
  The exceptions the modelled code raises. \<open>ConversionError\<close> and \<open>HTTPException\<close> carry
  the literal text the source gives them (the text of a wrapped library exception is
  left out); \<open>KeyError\<close> carries the missing key. \<open>ValueError\<close> and
  \<open>InvalidIndexError\<close> are raised by pandas.
\<close>

datatype py_error =
    ConversionError string
  | HTTPException nat string
  | KeyError string
  | ValueError
  | InvalidIndexError

text \<open>\<open>d[k]\<close> on a dictionary.\<close>

definition getitem :: "(string \<rightharpoonup> 'a) \<Rightarrow> string \<Rightarrow> py_error + 'a" where
  "getitem d k = (case d k of None \<Rightarrow> Inl (KeyError k) | Some v \<Rightarrow> Inr v)"

text \<open>
  A loop or comprehension whose body may raise: the elements are visited in order and
  the first exception ends the loop.
\<close>

fun for_each :: "('a \<Rightarrow> py_error + 'b) \<Rightarrow> 'a list \<Rightarrow> py_error + 'b list" where
  "for_each f [] = Inr []"
| "for_each f (x # xs) =
     (case f x of
        Inl e \<Rightarrow> Inl e
      | Inr y \<Rightarrow> (case for_each f xs of Inl e \<Rightarrow> Inl e | Inr ys \<Rightarrow> Inr (y # ys)))"

text \<open>
  A dictionary built from key-value pairs in order: a key met again keeps its place and
  takes the new value.
\<close>

definition dict_of :: "('k \<times> 'a) list \<Rightarrow> ('k \<times> 'a) list" where
  "dict_of items = fold (\<lambda>(k, v). AList.update k v) items []"

section \<open>The canonical table\<close>

text \<open>
  The pydantic models \<open>CellMetadata\<close>, \<open>TableCell\<close>, \<open>TableRow\<close> and \<open>TableData\<close>. A
  cell's \<open>value\<close> is declared \<open>Any\<close>: its type is the parameter \<open>'v\<close>, and the field is
  called \<open>cell_value\<close>. A Python float is never inspected by the modelled code and is an
  opaque type.
\<close>

typedecl py_float

record 'v cell_metadata =
  error :: "bool option"
  confidence :: "py_float option"
  status :: "string option"
  originalValue :: "'v option"

record 'v table_cell =
  cell_value :: 'v
  metadata :: "'v cell_metadata"

record 'v table_row =
  cells :: "string \<rightharpoonup> 'v table_cell"

record 'v table_data =
  headers :: "string list"
  rows :: "'v table_row list"

section \<open>Data frames\<close>

text \<open>
  A pandas \<open>DataFrame\<close> with the default row index: the column labels and the rows of
  cells, each row as long as the label list.
\<close>

record ('l, 'c) dataframe =
  columns :: "'l list"
  frame_rows :: "'c list list"

text \<open>
  \<open>pd.DataFrame(rows_data, columns=headers)\<close> for a list of dictionaries: each row takes,
  for every column, the dictionary's value at that label, and is left empty (\<open>NaN\<close>,
  here \<open>None\<close>) where the dictionary has no such key.
\<close>

definition DataFrame_of_dicts ::
  "(string \<times> 'v) list list \<Rightarrow> string list \<Rightarrow> (string, 'v option) dataframe" where
  "DataFrame_of_dicts rows_data cols =
     \<lparr>columns = cols, frame_rows = map (\<lambda>d. map (\<lambda>h. map_of d h) cols) rows_data\<rparr>"

section \<open>Element trees\<close>

text \<open>
  An \<open>xml.etree.ElementTree\<close> element as the exporters build it: a tag, an optional text
  and the children, with no attributes and no tail.
\<close>

datatype xml = Element (tag: string) (elem_text: "string option") (children: "xml list")

text \<open>\<open>_escape_cdata\<close>: the three characters replaced in character data.\<close>

definition escape_cdata :: "string \<Rightarrow> string" where
  "escape_cdata s =
     concat (map (\<lambda>c. if c = CHR ''&'' then ''&amp;''
                       else if c = CHR ''<'' then ''&lt;''
                       else if c = CHR ''>'' then ''&gt;'' else [c]) s)"

text \<open>
  \<open>_serialize_xml\<close> with \<open>short_empty_elements\<close>: the tag is written as it is; an element
  with neither text nor children is written in the short form.
\<close>

fun serialize_xml :: "xml \<Rightarrow> string" where
  "serialize_xml (Element t txt kids) =
     (if (txt = None \<or> txt = Some []) \<and> kids = [] then ''<'' @ t @ '' />''
      else ''<'' @ t @ ''>'' @ (case txt of None \<Rightarrow> [] | Some s \<Rightarrow> escape_cdata s) @
           concat (map serialize_xml kids) @ ''</'' @ t @ ''>'')"

fun tags_of :: "xml \<Rightarrow> string list" where
  "tags_of (Element t txt kids) = t # concat (map tags_of kids)"

text \<open>
  \<open>ElementTree.write(path, encoding='utf-8', xml_declaration=True)\<close>: the declaration,
  a line break and the serialised root; the file holds this text encoded in UTF-8.
  A tag that begins with an opening brace is read by the library as a name in a
  namespace; that path is not modelled, and the result is \<open>None\<close> for such a tree.
\<close>

definition xml_declaration :: string where
  "xml_declaration =
     ''<?xml version='' @ [CHR 0x27] @ ''1.0'' @ [CHR 0x27] @ '' encoding='' @
     [CHR 0x27] @ ''utf-8'' @ [CHR 0x27] @ ''?>'' @ [CHR 0x0A]"

definition tree_write :: "xml \<Rightarrow> string option" where
  "tree_write root =
     (if list_ex (\<lambda>t. t \<noteq> [] \<and> hd t = CHR ''{'') (tags_of root) then None
      else Some (xml_declaration @ serialize_xml root))"

section \<open>The exporters of a corrected table\<close>

text \<open>
  \<open>save_as_xlsx\<close> and \<open>save_as_csv\<close> build one dictionary per row by looking every header
  up in the row's cells, make a data frame of them and hand it to the pandas writer.
  The writer is a parameter: what it puts in the file, or the exception it raises, is a
  function of the frame.
\<close>

definition row_dict :: "string list \<Rightarrow> 'v table_row \<Rightarrow> py_error + (string \<times> 'v) list" where
  "row_dict hs r =
     (case for_each (\<lambda>header. case getitem (cells r) header of
                                  Inl e \<Rightarrow> Inl e
                                | Inr c \<Rightarrow> Inr (header, cell_value c)) hs of
        Inl e \<Rightarrow> Inl e
      | Inr items \<Rightarrow> Inr (dict_of items))"

definition save_as_xlsx ::
  "((string, 'v option) dataframe \<Rightarrow> py_error + 'f) \<Rightarrow> 'v table_data \<Rightarrow> py_error + 'f" where
  "save_as_xlsx to_excel data =
     (case for_each (row_dict (headers data)) (rows data) of
        Inl e \<Rightarrow> Inl e
      | Inr rows_data \<Rightarrow> to_excel (DataFrame_of_dicts rows_data (headers data)))"

definition save_as_csv ::
  "((string, 'v option) dataframe \<Rightarrow> py_error + 'f) \<Rightarrow> 'v table_data \<Rightarrow> py_error + 'f" where
  "save_as_csv to_csv data =
     (case for_each (row_dict (headers data)) (rows data) of
        Inl e \<Rightarrow> Inl e
      | Inr rows_data \<Rightarrow> to_csv (DataFrame_of_dicts rows_data (headers data)))"

text \<open>
  \<open>save_as_xml\<close> builds the envelope, one \<open>TALLYMESSAGE\<close> per row and under it one
  element per header, named by the header and holding \<open>str\<close> of the cell's value.
  \<open>str\<close> on a value of type \<open>Any\<close> is the parameter \<open>py_str\<close>.
\<close>

definition tallymessage_of :: "('v \<Rightarrow> string) \<Rightarrow> string list \<Rightarrow> 'v table_row \<Rightarrow> py_error + xml" where
  "tallymessage_of py_str hs r =
     (case for_each (\<lambda>header. case getitem (cells r) header of
                                  Inl e \<Rightarrow> Inl e
                                | Inr c \<Rightarrow> Inr (Element header (Some (py_str (cell_value c))) []))
             hs of
        Inl e \<Rightarrow> Inl e
      | Inr leaves \<Rightarrow> Inr (Element ''TALLYMESSAGE'' None leaves))"

definition envelope :: "xml list \<Rightarrow> xml" where
  "envelope tallymessages =
     Element ''ENVELOPE'' None
       [Element ''HEADER'' None
          [Element ''VERSION'' (Some ''1'') [],
           Element ''TALLYREQUEST'' (Some ''Import Data'') []],
        Element ''BODY'' None
          [Element ''IMPORTDATA'' None
             [Element ''REQUESTDESC'' None [Element ''REPORTNAME'' (Some ''Custom'') []],
              Element ''REQUESTDATA'' None tallymessages]]]"

definition save_as_xml_tree :: "('v \<Rightarrow> string) \<Rightarrow> 'v table_data \<Rightarrow> py_error + xml" where
  "save_as_xml_tree py_str data =
     (case for_each (tallymessage_of py_str (headers data)) (rows data) of
        Inl e \<Rightarrow> Inl e
      | Inr tallymessages \<Rightarrow> Inr (envelope tallymessages))"

definition save_as_xml :: "('v \<Rightarrow> string) \<Rightarrow> 'v table_data \<Rightarrow> py_error + string option" where
  "save_as_xml py_str data =
     (case save_as_xml_tree py_str data of
        Inl e \<Rightarrow> Inl e
      | Inr root \<Rightarrow> Inr (tree_write root))"

text \<open>
  The names XML allows for an element, among the characters below 256: a letter, an
  underscore or a colon first, then also digits, hyphens, full stops and the middle dot.
  A document is well-formed only if every tag in it is such a name.
\<close>

definition name_start_char :: "char \<Rightarrow> bool" where
  "name_start_char c =
     (let n = (of_char c :: nat)
      in n = 58 \<or> (65 \<le> n \<and> n \<le> 90) \<or> n = 95 \<or> (97 \<le> n \<and> n \<le> 122) \<or>
         (192 \<le> n \<and> n \<le> 214) \<or> (216 \<le> n \<and> n \<le> 246) \<or> 248 \<le> n)"

definition name_char :: "char \<Rightarrow> bool" where
  "name_char c =
     (let n = (of_char c :: nat)
      in name_start_char c \<or> n = 45 \<or> n = 46 \<or> (48 \<le> n \<and> n \<le> 57) \<or> n = 183)"

definition xml_name :: "string \<Rightarrow> bool" where
  "xml_name s = (case s of [] \<Rightarrow> False | c # cs \<Rightarrow> name_start_char c \<and> list_all name_char cs)"

definition well_formed_tags :: "xml \<Rightarrow> bool" where
  "well_formed_tags root = list_all xml_name (tags_of root)"

text \<open>
  The row record as the specification describes it: one \<open>TALLYMESSAGE\<close> holding, for
  each header in order, one element named by the header whose text is the cell's value
  as a string. It is not taken from the source; the exporter is compared with it.
\<close>

definition spec_row_record :: "('v \<Rightarrow> string) \<Rightarrow> string list \<Rightarrow> 'v table_row \<Rightarrow> xml" where
  "spec_row_record py_str hs r =
     Element ''TALLYMESSAGE'' None
       (map (\<lambda>h. Element h (Some (py_str (cell_value (the (cells r h))))) []) hs)"

section \<open>Sample tables\<close>

text \<open>
  A small table of strings, the same table with other metadata on every cell, and the
  same table with one cell missing from its row. \<open>str\<close> of a string is the string.
\<close>

definition plain_metadata :: "string cell_metadata" where
  "plain_metadata = \<lparr>error = None, confidence = None, status = None, originalValue = None\<rparr>"

definition flagged_metadata :: "string cell_metadata" where
  "flagged_metadata =
     \<lparr>error = Some True, confidence = None, status = Some ''error'',
      originalValue = Some ''Pan''\<rparr>"

definition stock_table :: "string table_data" where
  "stock_table =
     \<lparr>headers = [''Item'', ''Qty''],
      rows = [\<lparr>cells = map_of
                [(''Item'', \<lparr>cell_value = ''Pen'', metadata = plain_metadata\<rparr>),
                 (''Qty'', \<lparr>cell_value = ''3'', metadata = plain_metadata\<rparr>)]\<rparr>,
              \<lparr>cells = map_of
                [(''Item'', \<lparr>cell_value = ''Ink'', metadata = plain_metadata\<rparr>),
                 (''Qty'', \<lparr>cell_value = ''12'', metadata = plain_metadata\<rparr>)]\<rparr>,
              \<lparr>cells = map_of
                [(''Item'', \<lparr>cell_value = ''A<B'', metadata = plain_metadata\<rparr>),
                 (''Qty'', \<lparr>cell_value = '''', metadata = plain_metadata\<rparr>)]\<rparr>]\<rparr>"

definition stock_table_flagged :: "string table_data" where
  "stock_table_flagged =
     \<lparr>headers = [''Item'', ''Qty''],
      rows = [\<lparr>cells = map_of
                [(''Item'', \<lparr>cell_value = ''Pen'', metadata = flagged_metadata\<rparr>),
                 (''Qty'', \<lparr>cell_value = ''3'', metadata = flagged_metadata\<rparr>)]\<rparr>,
              \<lparr>cells = map_of
                [(''Item'', \<lparr>cell_value = ''Ink'', metadata = flagged_metadata\<rparr>),
                 (''Qty'', \<lparr>cell_value = ''12'', metadata = plain_metadata\<rparr>)]\<rparr>,
              \<lparr>cells = map_of
                [(''Item'', \<lparr>cell_value = ''A<B'', metadata = flagged_metadata\<rparr>),
                 (''Qty'', \<lparr>cell_value = '''', metadata = flagged_metadata\<rparr>)]\<rparr>]\<rparr>"

definition stock_table_incomplete :: "string table_data" where
  "stock_table_incomplete =
     \<lparr>headers = [''Item'', ''Qty''],
      rows = [\<lparr>cells = map_of
                [(''Item'', \<lparr>cell_value = ''Pen'', metadata = plain_metadata\<rparr>),
                 (''Qty'', \<lparr>cell_value = ''3'', metadata = plain_metadata\<rparr>)]\<rparr>,
              \<lparr>cells = map_of
                [(''Item'', \<lparr>cell_value = ''Ink'', metadata = plain_metadata\<rparr>)]\<rparr>]\<rparr>"

definition invoice_table :: "string table_data" where
  "invoice_table =
     \<lparr>headers = [''Invoice No'', ''Amount''],
      rows = [\<lparr>cells = map_of
                [(''Invoice No'', \<lparr>cell_value = ''INV-7'', metadata = plain_metadata\<rparr>),
                 (''Amount'', \<lparr>cell_value = ''100'', metadata = plain_metadata\<rparr>)]\<rparr>]\<rparr>"

section \<open>Splitting text\<close>

text \<open>\<open>s.split(sep)\<close> for a one-character separator: never an empty list.\<close>

fun split_on :: "char \<Rightarrow> string \<Rightarrow> string list" where
  "split_on sep [] = [[]]"
| "split_on sep (c # cs) =
     (let r = split_on sep cs
      in if c = sep then [] # r else (c # hd r) # tl r)"

text \<open>\<open>s.split()\<close>: the words between runs of whitespace, none of them empty.\<close>

fun words_from :: "string \<Rightarrow> string \<Rightarrow> string list" where
  "words_from w [] = (if w = [] then [] else [w])"
| "words_from w (c # cs) =
     (if py_isspace c then (if w = [] then words_from [] cs else w # words_from [] cs)
      else words_from (w @ [c]) cs)"

definition split_ws :: "string \<Rightarrow> string list" where
  "split_ws s = words_from [] s"

section \<open>Paths\<close>

text \<open>\<open>os.path\<close> of a POSIX system.\<close>

definition CONVERTED_DIR :: string where
  "CONVERTED_DIR = ''converted''"

definition basename :: "string \<Rightarrow> string" where
  "basename p = rev (takeWhile (\<lambda>c. c \<noteq> CHR ''/'') (rev p))"

definition path_join :: "string \<Rightarrow> string \<Rightarrow> string" where
  "path_join a b =
     (if b \<noteq> [] \<and> hd b = CHR ''/'' then b
      else if a = [] \<or> last a = CHR ''/'' then a @ b
      else a @ ''/'' @ b)"

text \<open>
  \<open>os.path.splitext(p)[1]\<close>: from the last dot of the last path component on, unless
  only dots stand before it in that component.
\<close>

definition splitext_ext :: "string \<Rightarrow> string" where
  "splitext_ext p =
     (let b = basename p;
          after = rev (takeWhile (\<lambda>c. c \<noteq> CHR ''.'') (rev b));
          before = rev (drop 1 (dropWhile (\<lambda>c. c \<noteq> CHR ''.'') (rev b)))
      in if CHR ''.'' \<in> set b \<and> list_ex (\<lambda>c. c \<noteq> CHR ''.'') before
         then CHR ''.'' # after else [])"

section \<open>Frames of extracted text\<close>

text \<open>
  A cell of an extracted table: a string, Python's \<open>None\<close> (pdfplumber gives it for a
  cell without text, and pandas pads short rows with it) or \<open>NaN\<close> (pandas fills a
  column a frame did not have with it). Column labels are cells too, since a table's
  first row becomes its labels.
\<close>

datatype cell = Str string | PyNone | NaN

definition str_cell :: "cell \<Rightarrow> string" where
  "str_cell c = (case c of Str s \<Rightarrow> s | PyNone \<Rightarrow> ''None'' | NaN \<Rightarrow> ''nan'')"

type_synonym frame = "(cell, cell) dataframe"

text \<open>
  \<open>pd.DataFrame(data, columns=cols)\<close> for a list of lists. Without rows the frame is
  empty with the given labels. Otherwise the rows are padded with \<open>None\<close> to the length
  of the longest, and that length must be the number of labels, else \<open>ValueError\<close>.
\<close>

definition DataFrame :: "cell list list \<Rightarrow> cell list \<Rightarrow> py_error + frame" where
  "DataFrame data cols =
     (if data = [] then Inr \<lparr>columns = cols, frame_rows = []\<rparr>
      else
        let width = foldr max (map length data) 0
        in if length cols = width
           then Inr \<lparr>columns = cols,
                     frame_rows = map (\<lambda>r. r @ replicate (width - length r) PyNone) data\<rparr>
           else Inl ValueError)"

text \<open>
  \<open>pd.concat(frames, ignore_index=True)\<close>. Frames with the same labels are stacked as
  they are. Otherwise the labels of the result are all labels in the order they are
  first seen, every row is re-read by label, with \<open>NaN\<close> where its frame has no such
  label, and a frame with a repeated label raises \<open>InvalidIndexError\<close>.
\<close>

definition first_seen :: "'a list \<Rightarrow> 'a list" where
  "first_seen xs = rev (remdups (rev xs))"

definition reindex :: "cell list \<Rightarrow> cell list \<Rightarrow> cell list \<Rightarrow> cell list" where
  "reindex old new r = map (\<lambda>l. case map_of (zip old r) l of None \<Rightarrow> NaN | Some v \<Rightarrow> v) new"

definition pd_concat :: "frame list \<Rightarrow> py_error + frame" where
  "pd_concat frames =
     (if frames = [] then Inl ValueError
      else if list_all (\<lambda>f. columns f = columns (hd frames)) frames
      then Inr \<lparr>columns = columns (hd frames), frame_rows = concat (map frame_rows frames)\<rparr>
      else if list_ex (\<lambda>f. \<not> distinct (columns f)) frames then Inl InvalidIndexError
      else
        let labels = first_seen (concat (map columns frames))
        in Inr \<lparr>columns = labels,
                 frame_rows =
                   concat (map (\<lambda>f. map (reindex (columns f) labels) (frame_rows f)) frames)\<rparr>)"

section \<open>Extraction\<close>

text \<open>
  What pdfplumber finds in a file: it raises, or it gives for each page, in order, the
  tables \<open>page.extract_tables()\<close> returns, each a list of rows of cells.
\<close>

datatype pdf_outcome = PdfRaises | Pages "cell list list list list"

text \<open>
  \<open>extract_tables_from_pdf\<close>: every table that is not empty becomes a frame, its first
  row the labels and the other rows the data. Any exception becomes a
  \<open>ConversionError\<close>.
\<close>

definition extract_tables_from_pdf :: "pdf_outcome \<Rightarrow> py_error + frame list" where
  "extract_tables_from_pdf pdf =
     (case pdf of
        PdfRaises \<Rightarrow> Inl (ConversionError ''Failed to extract tables from PDF: '')
      | Pages pages \<Rightarrow>
          (case for_each (\<lambda>table. DataFrame (tl table) (hd table))
                  (filter (\<lambda>table. table \<noteq> []) (concat pages)) of
             Inl e \<Rightarrow> Inl (ConversionError ''Failed to extract tables from PDF: '')
           | Inr tables \<Rightarrow> Inr tables))"

text \<open>
  What OpenCV and Tesseract find in a file: \<open>cv2.imread\<close> returns \<open>None\<close>, or a later
  call raises, or \<open>pytesseract.image_to_string\<close> returns a text.
\<close>

datatype ocr_outcome = ImreadNone | OcrRaises | OcrText string

text \<open>
  \<open>process_image_ocr\<close>: the stripped text is split into lines, the first line gives the
  labels and the others the rows, each split at whitespace. Every exception, also the
  function's own, leaves as a \<open>ConversionError\<close> whose message starts with
  \<open>Failed to process image\<close>.
\<close>

definition process_image_ocr :: "ocr_outcome \<Rightarrow> py_error + frame" where
  "process_image_ocr img =
     (case img of
        ImreadNone \<Rightarrow> Inl (ConversionError ''Failed to process image: Failed to read image file'')
      | OcrRaises \<Rightarrow> Inl (ConversionError ''Failed to process image: '')
      | OcrText text \<Rightarrow>
          (let lines = split_on (CHR 0x0A) (strip text)
           in if lines = []
              then Inl (ConversionError ''Failed to process image: No text detected in image'')
              else
                let hs = split_ws (hd lines);
                    data = map split_ws (tl lines)
                in case DataFrame (map (map Str) data) (map Str hs) of
                     Inl e \<Rightarrow> Inl (ConversionError ''Failed to process image: '')
                   | Inr df \<Rightarrow> Inr df))"

section \<open>Conversion\<close>

text \<open>
  What \<open>convert_file\<close> does to the world, in order: it runs an extractor, and it writes
  files. A written spreadsheet or CSV file is recorded as the frame handed to the pandas
  writer, a written XML file as its text. The writers are taken to return.
\<close>

datatype effect =
    PdfExtraction
  | ImageOcr
  | ToExcel string frame
  | ToCsv string frame
  | WriteXml string "string option"

text \<open>\<open>create_tally_xml\<close>: the path it writes and what it writes there.\<close>

definition create_tally_xml :: "frame \<Rightarrow> string \<Rightarrow> string \<times> string option" where
  "create_tally_xml data filename =
     (path_join CONVERTED_DIR (filename @ ''.xml''),
      tree_write (envelope
        (map (\<lambda>r. Element ''TALLYMESSAGE'' None
                 (map (\<lambda>(col, v). Element (str_cell col) (Some (str_cell v)) [])
                      (zip (columns data) r)))
             (frame_rows data))))"

text \<open>
  The first block of \<open>convert_file\<close>: the extractor is chosen by the extension of the
  path. \<open>pdfplumber\<close> and \<open>ocr\<close> say what the libraries find in the file at a path.
\<close>

definition extract_data ::
  "(string \<Rightarrow> pdf_outcome) \<Rightarrow> (string \<Rightarrow> ocr_outcome) \<Rightarrow> string \<Rightarrow>
   effect list \<times> (py_error + frame)" where
  "extract_data pdfplumber ocr file_path =
     (let file_extension = lower (splitext_ext file_path)
      in if file_extension = ''.pdf''
         then (case extract_tables_from_pdf (pdfplumber file_path) of
                 Inl e \<Rightarrow> ([PdfExtraction], Inl e)
               | Inr dataframes \<Rightarrow>
                   if dataframes = []
                   then ([PdfExtraction], Inl (ConversionError ''No tables found in PDF''))
                   else ([PdfExtraction], pd_concat dataframes))
         else if file_extension \<in> set [''.png'', ''.jpg'', ''.jpeg'']
         then ([ImageOcr], process_image_ocr (ocr file_path))
         else ([], Inl (HTTPException 400 ''Unsupported file format'')))"

text \<open>
  The second block: one pass of the loop over the requested formats. A format that is
  none of the three changes nothing.
\<close>

definition export_format ::
  "frame \<Rightarrow> string \<Rightarrow> string \<Rightarrow> effect list \<times> (string \<times> string) list \<Rightarrow>
   effect list \<times> (string \<times> string) list" where
  "export_format data file_id format st =
     (let output_path = path_join CONVERTED_DIR (file_id @ ''.'' @ format)
      in if format = ''xlsx''
         then (fst st @ [ToExcel output_path data],
               AList.update ''xlsx'' output_path (snd st))
         else if format = ''csv''
         then (fst st @ [ToCsv output_path data],
               AList.update ''csv'' output_path (snd st))
         else if format = ''xml''
         then (let (xml_path, written) = create_tally_xml data file_id
               in (fst st @ [WriteXml xml_path written],
                   AList.update ''xml'' xml_path (snd st)))
         else st)"

text \<open>
  The third block: the rows for the front end. \<open>row[col]\<close> is the cell under the label
  when the label stands once in the frame and a sub-series of cells when it is repeated;
  the text \<open>str\<close> makes of a sub-series is not modelled and is kept as the series.
\<close>

datatype shown = Scalar string | SeriesOf "cell list"

definition row_getitem :: "cell list \<Rightarrow> cell list \<Rightarrow> cell \<Rightarrow> shown" where
  "row_getitem cols r col =
     (case filter (\<lambda>(l, v). l = col) (zip cols r) of
        [(l, v)] \<Rightarrow> Scalar (str_cell v)
      | hits \<Rightarrow> SeriesOf (map snd hits))"

record response =
  resp_status :: string
  resp_message :: string
  resp_file_id :: string
  resp_headers :: "cell list"
  resp_rows :: "(cell \<times> shown) list list"
  converted_files :: "(string \<times> string) list"

definition convert_file ::
  "(string \<Rightarrow> pdf_outcome) \<Rightarrow> (string \<Rightarrow> ocr_outcome) \<Rightarrow> string \<Rightarrow> string \<Rightarrow> string list \<Rightarrow>
   effect list \<times> (py_error + response)" where
  "convert_file pdfplumber ocr file_path file_id output_formats =
     (case extract_data pdfplumber ocr file_path of
        (effects, Inl e) \<Rightarrow> (effects, Inl e)
      | (effects, Inr data) \<Rightarrow>
          (let (effects', output_files) =
                 fold (export_format data file_id) output_formats (effects, [])
           in (effects',
               Inr \<lparr>resp_status = ''success'',
                    resp_message = ''File converted successfully'',
                    resp_file_id = file_id,
                    resp_headers = columns data,
                    resp_rows =
                      map (\<lambda>r. dict_of (map (\<lambda>col. (col, row_getitem (columns data) r col))
                                               (columns data)))
                          (frame_rows data),
                    converted_files =
                      map (\<lambda>(format, path). (format, ''/download/'' @ basename path))
                          output_files\<rparr>)))"

text \<open>
  The merged table as the specification describes it: the labels are the first row of
  the first raw table, and the rows are all the other rows of all raw tables in order,
  each cell under the label at its position. It is not taken from the source; the
  extraction is compared with it.
\<close>

definition spec_normalize :: "cell list list list \<Rightarrow> frame" where
  "spec_normalize tables =
     \<lparr>columns = hd (concat tables), frame_rows = tl (concat tables)\<rparr>"

section \<open>Sample documents\<close>

text \<open>
  Two raw tables with the same first row, as two pages of a ledger give them, and one
  whose columns stand in the other order.
\<close>

definition ledger_table_1 :: "cell list list" where
  "ledger_table_1 = [[Str ''Item'', Str ''Qty''], [Str ''Pen'', Str ''3'']]"

definition ledger_table_2 :: "cell list list" where
  "ledger_table_2 = [[Str ''Item'', Str ''Qty''], [Str ''Ink'', Str ''12'']]"

definition ledger_table_swapped :: "cell list list" where
  "ledger_table_swapped = [[Str ''Qty'', Str ''Item''], [Str ''12'', Str ''Ink'']]"

section \<open>Properties of the validator\<close>

subsection \<open>Where a cell's findings stand in the report\<close>

lemma validate_cell_append:
  "validate_cell i j c res = res @ validate_cell i j c []"
  by (simp add: validate_cell_def Let_def)

lemma validate_cell_position:
  "f \<in> set (validate_cell i j c []) \<Longrightarrow> row f = i \<and> column f = j"
  by (auto simp: validate_cell_def Let_def mandatory_finding_def numeric_finding_def
      date_finding_def ocr_finding_def split: if_splits)

lemma fold_validate_cell:
  "fold (\<lambda>(j, c). validate_cell i j c) ps res =
     res @ concat (map (\<lambda>(j, c). validate_cell i j c []) ps)"
proof (induction ps arbitrary: res)
  case Nil
  show ?case by simp
next
  case (Cons p ps)
  obtain j c where p: "p = (j, c)" by (cases p)
  show ?case
    using Cons.IH [of "validate_cell i j c res"] validate_cell_append [of i j c res]
    by (simp add: p)
qed

lemma validate_row_append:
  "validate_row i r res = res @ validate_row i r []"
  by (simp add: validate_row_def fold_validate_cell [of i _ res] fold_validate_cell [of i _ "[]"])

lemma fold_validate_row:
  "fold (\<lambda>(i, r). validate_row i r) ps res =
     res @ concat (map (\<lambda>(i, r). validate_row i r []) ps)"
proof (induction ps arbitrary: res)
  case Nil
  show ?case by simp
next
  case (Cons p ps)
  obtain i r where p: "p = (i, r)" by (cases p)
  show ?case
    using Cons.IH [of "validate_row i r res"] validate_row_append [of i r res]
    by (simp add: p)
qed

lemma validate_row_concat:
  "validate_row i r [] = concat (map (\<lambda>(j, c). validate_cell i j c []) (enumerate 0 r))"
  by (simp add: validate_row_def fold_validate_cell)

lemma validate_table_concat:
  "validate_table data = concat (map (\<lambda>(i, r). validate_row i r []) (enumerate 0 data))"
  by (simp add: validate_table_def fold_validate_row)

lemma validate_row_position:
  "f \<in> set (validate_row i r []) \<Longrightarrow> row f = i"
  by (auto simp: validate_row_concat dest: validate_cell_position)

lemma filter_cells_of_row:
  "j < n + length r \<Longrightarrow> n \<le> j \<Longrightarrow>
   filter (\<lambda>f. row f = i \<and> column f = j)
     (concat (map (\<lambda>(k, c). validate_cell i k c []) (enumerate n r))) =
   validate_cell i j (r ! (j - n)) []"
proof (induction r arbitrary: n)
  case Nil
  then show ?case by simp
next
  case (Cons c r)
  have here: "filter (\<lambda>f. row f = i \<and> column f = k) (validate_cell i k c []) =
      validate_cell i k c []" for k
    by (rule filter_True) (auto dest: validate_cell_position)
  have other: "filter (\<lambda>f. row f = i \<and> column f = j) (validate_cell i k c []) = []"
    if "k \<noteq> j" for k
    using that by (auto simp: filter_empty_conv dest: validate_cell_position)
  have rest: "filter (\<lambda>f. row f = i \<and> column f = j)
      (concat (map (\<lambda>(k, c). validate_cell i k c []) (enumerate (Suc n) r))) = []"
    if "j = n"
    using that by (auto simp: filter_empty_conv in_set_enumerate_eq dest!: validate_cell_position)
  show ?case
  proof (cases "j = n")
    case True
    then show ?thesis using rest here by simp
  next
    case False
    with Cons.prems have "j < Suc n + length r" "Suc n \<le> j" by simp_all
    from Cons.IH [OF this] False other [of n] Cons.prems show ?thesis
      by (simp add: Suc_diff_le nth_Cons')
  qed
qed

lemma findings_at_row:
  "j < length r \<Longrightarrow> findings_at i j (validate_row i r []) = validate_cell i j (r ! j) []"
  using filter_cells_of_row [of j 0 r i] by (simp add: findings_at_def validate_row_concat)

lemma filter_rows_of_table:
  "i < n + length data \<Longrightarrow> n \<le> i \<Longrightarrow>
   filter (\<lambda>f. row f = i \<and> column f = j)
     (concat (map (\<lambda>(k, r). validate_row k r []) (enumerate n data))) =
   findings_at i j (validate_row i (data ! (i - n)) [])"
proof (induction data arbitrary: n)
  case Nil
  then show ?case by simp
next
  case (Cons r data)
  have other: "filter (\<lambda>f. row f = i \<and> column f = j) (validate_row k r' []) = []"
    if "k \<noteq> i" for k r'
    using that by (auto simp: filter_empty_conv dest: validate_row_position)
  have rest: "filter (\<lambda>f. row f = i \<and> column f = j)
      (concat (map (\<lambda>(k, r). validate_row k r []) (enumerate (Suc n) data))) = []"
    if "i = n"
    using that by (auto simp: filter_empty_conv in_set_enumerate_eq dest!: validate_row_position)
  show ?case
  proof (cases "i = n")
    case True
    then show ?thesis using rest by (simp add: findings_at_def)
  next
    case False
    with Cons.prems have "i < Suc n + length data" "Suc n \<le> i" by simp_all
    from Cons.IH [OF this] False other [of n r] Cons.prems show ?thesis
      by (simp add: Suc_diff_le nth_Cons')
  qed
qed

lemma findings_at_table:
  "i < length data \<Longrightarrow> j < length (data ! i) \<Longrightarrow>
   findings_at i j (validate_table data) = validate_cell i j (data ! i ! j) []"
  using filter_rows_of_table [of i 0 data j] findings_at_row [of j "data ! i" i]
  by (simp add: findings_at_def validate_table_concat)

subsection \<open>Facts about the string helpers\<close>

lemma strip_empty_iff: "strip s = [] \<longleftrightarrow> (\<forall>c \<in> set s. py_isspace c)"
proof
  assume "strip s = []"
  then have all: "\<forall>c \<in> set (dropWhile py_isspace s). py_isspace c"
    by (simp add: strip_def rstrip_def lstrip_def)
  show "\<forall>c \<in> set s. py_isspace c"
  proof (cases "dropWhile py_isspace s")
    case Nil
    then show ?thesis by simp
  next
    case (Cons c cs)
    then have "\<not> py_isspace c" using hd_dropWhile [of py_isspace s] by simp
    with all Cons show ?thesis by simp
  qed
next
  assume "\<forall>c \<in> set s. py_isspace c"
  then show "strip s = []"
    by (auto simp: strip_def rstrip_def lstrip_def dest: set_dropWhileD)
qed

lemma starts_with_iff: "starts_with p s \<longleftrightarrow> (\<exists>post. s = p @ post)"
  by (induction p s rule: starts_with.induct) auto

lemma contains_iff: "contains sub s \<longleftrightarrow> (\<exists>pre post. s = pre @ sub @ post)"
proof (induction s)
  case Nil
  show ?case by auto
next
  case (Cons c s)
  show ?case
  proof
    assume "contains sub (c # s)"
    then consider "starts_with sub (c # s)" | "contains sub s" by auto
    then show "\<exists>pre post. c # s = pre @ sub @ post"
    proof cases
      case 1
      then obtain post where "c # s = sub @ post" by (auto simp: starts_with_iff)
      then have "c # s = [] @ sub @ post" by simp
      then show ?thesis by blast
    next
      case 2
      with Cons.IH obtain pre post where "s = pre @ sub @ post" by blast
      then have "c # s = (c # pre) @ sub @ post" by simp
      then show ?thesis by blast
    qed
  next
    assume "\<exists>pre post. c # s = pre @ sub @ post"
    then obtain pre post where eq: "c # s = pre @ sub @ post" by blast
    show "contains sub (c # s)"
    proof (cases pre)
      case Nil
      with eq have "starts_with sub (c # s)" by (auto simp: starts_with_iff)
      then show ?thesis by simp
    next
      case (Cons a pre')
      with eq have "s = pre' @ sub @ post" by simp
      with Cons.IH have "contains sub s" by blast
      then show ?thesis by simp
    qed
  qed
qed

lemma blank_has_no_digraph:
  assumes "\<forall>c \<in> set s. py_isspace c"
  shows "\<not> list_ex (\<lambda>digraph. contains digraph s) [''O0'', ''l1'', ''S5'']"
proof -
  have "\<not> contains (a # d) s" if "\<not> py_isspace a" for a d
  proof
    assume "contains (a # d) s"
    then have "a \<in> set s" by (auto simp: contains_iff)
    with assms that show False by blast
  qed
  then show ?thesis by (simp add: py_isspace_def)
qed

lemma strptime_rejects_empty: "\<not> strptime_ok []"
  by (simp add: strptime_ok_def)

subsection \<open>The body of the loop, rule by rule\<close>

lemma finding_fields:
  "severity (mandatory_finding i j) = ''critical''"
  "severity (numeric_finding i j) = ''critical''"
  "severity (date_finding i j) = ''warning''"
  "severity (ocr_finding i j) = ''info''"
  "message (mandatory_finding i j) = ''Mandatory field cannot be empty''"
  "message (numeric_finding i j) = ''Value must be numeric''"
  "message (date_finding i j) = ''Invalid date format (should be YYYY-MM-DD)''"
  "message (ocr_finding i j) = ''Possible OCR confusion (O/0, l/1, S/5)''"
  by (simp_all add: mandatory_finding_def numeric_finding_def date_finding_def ocr_finding_def)

lemma validate_cell_body:
  assumes "0 < i"
  shows "validate_cell i j c [] =
    (if strip c = [] \<and> j \<le> 2 then [mandatory_finding i j] else []) @
    (if (j = 3 \<or> j = 4) \<and> \<not> float_ok (strip (remove_char (CHR '','') c))
     then [numeric_finding i j] else []) @
    (if j = 2 \<and> \<not> strptime_ok (strip c) then [date_finding i j] else []) @
    (if list_ex (\<lambda>digraph. contains digraph c) [''O0'', ''l1'', ''S5'']
     then [ocr_finding i j] else [])"
proof -
  have le2: "j \<le> 2 \<longleftrightarrow> j = 0 \<or> j = Suc 0 \<or> j = 2" by auto
  show ?thesis
    using assms by (simp add: validate_cell_def Let_def le2 del: list_ex_Cons_iff)
qed

subsection \<open>Plain numbers are accepted by \<open>float\<close>\<close>

text \<open>
  A text of digits with at most one decimal point and at least one digit, after an
  optional sign, has no underscore, no exponent and no letter, so \<open>float\<close> reads its
  sign, its integer part, its point and its fraction, and is left with nothing.
\<close>

lemma plain_char_facts:
  assumes "plain_char c"
  shows "space_to_ascii c = c" and "c \<noteq> CHR ''_''" and "\<not> ascii_isspace c"
  using assms
  by (auto simp: plain_char_def is_digit_def space_to_ascii_def ascii_isspace_def Let_def)

lemma is_digit_facts:
  assumes "is_digit c"
  shows "c \<noteq> CHR ''.''" and "c \<noteq> CHR ''-''" and "c \<noteq> CHR ''+''" and "c \<noteq> CHR ''_''"
  using assms by (auto simp: is_digit_def)

lemma dropWhile_none: "(\<And>x. x \<in> set xs \<Longrightarrow> \<not> P x) \<Longrightarrow> dropWhile P xs = xs"
  by (cases xs) simp_all

lemma underscores_ok_plain:
  "(\<And>c. c \<in> set s \<Longrightarrow> c \<noteq> CHR ''_'') \<Longrightarrow> prev \<noteq> CHR ''_'' \<Longrightarrow> underscores_ok prev s"
  by (induction s arbitrary: prev) simp_all

lemma float_ok_plain:
  assumes "\<And>c. c \<in> set s \<Longrightarrow> plain_char c"
  shows "float_ok s \<longleftrightarrow> strtod_ok s \<or> inf_or_nan_ok s"
proof -
  have 1: "map space_to_ascii s = s"
    using assms by (simp add: map_idI plain_char_facts)
  have 2: "remove_char (CHR ''_'') s = s"
    using assms by (simp add: remove_char_def plain_char_facts)
  have 3: "dropWhile ascii_isspace s = s"
    using assms by (intro dropWhile_none) (simp add: plain_char_facts)
  have 4: "dropWhile ascii_isspace (rev s) = rev s"
    using assms by (intro dropWhile_none) (simp add: plain_char_facts)
  have 5: "underscores_ok (CHR 0x00) s"
    using assms by (intro underscores_ok_plain) (simp_all add: plain_char_facts)
  show ?thesis by (simp add: float_ok_def 1 2 3 4 5)
qed

lemma digits_then_point:
  assumes "list_all (\<lambda>c. is_digit c \<or> c = CHR ''.'') body"
    and "length (filter (\<lambda>c. c = CHR ''.'') body) \<le> 1"
  shows "dropWhile is_digit body = [] \<or>
         (\<exists>fp. dropWhile is_digit body = CHR ''.'' # fp \<and> list_all is_digit fp)"
proof (cases "dropWhile is_digit body")
  case Nil
  then show ?thesis by simp
next
  case (Cons c r)
  have sub: "set (dropWhile is_digit body) \<subseteq> set body" by (rule set_dropWhileD [THEN subsetI])
  from Cons have "\<not> is_digit c" using hd_dropWhile [of is_digit body] by auto
  moreover from Cons sub assms(1) have "is_digit c \<or> c = CHR ''.''"
    by (auto simp: list_all_iff)
  ultimately have c: "c = CHR ''.''" by simp
  have split: "body = takeWhile is_digit body @ CHR ''.'' # r"
    using Cons c takeWhile_dropWhile_id [of is_digit body] by simp
  have "length (filter (\<lambda>c. c = CHR ''.'') body) =
      length (filter (\<lambda>c. c = CHR ''.'') (takeWhile is_digit body)) + 1 +
      length (filter (\<lambda>c. c = CHR ''.'') r)"
    by (subst split) simp
  with assms(2) have "filter (\<lambda>c. c = CHR ''.'') r = []" by simp
  then have nodot: "\<forall>x \<in> set r. x \<noteq> CHR ''.''" by (simp add: filter_empty_conv)
  have "set r \<subseteq> set body" by (subst split) auto
  with assms(1) nodot have "list_all is_digit r" by (auto simp: list_all_iff)
  with Cons c show ?thesis by simp
qed

lemma strtod_ok_digits:
  assumes "list_all is_digit ip" and "list_all is_digit fp" and "ip \<noteq> [] \<or> fp \<noteq> []"
    and "int (length ip) + int (length fp) \<le> MAX_DIGITS"
    and "drop_sign s = ip @ rest" and "rest = [] \<and> fp = [] \<or> rest = CHR ''.'' # fp"
  shows "strtod_ok s"
proof -
  have nd: "\<not> is_digit (CHR ''.'')" by (simp add: is_digit_def)
  have ip: "takeWhile is_digit (ip @ rest) = ip" "dropWhile is_digit (ip @ rest) = rest"
    using assms(1,6) nd by (auto simp: list_all_iff takeWhile_append2 dropWhile_append2)
  have fp: "takeWhile is_digit fp = fp" "dropWhile is_digit fp = []"
    using assms(2) by (simp_all add: list_all_iff)
  have z: "int (length (dropWhile (\<lambda>c. c = CHR ''0'') xs)) \<le> int (length xs)"
    for xs :: string
    by (simp add: length_dropWhile_le)
  from assms(6) show ?thesis
  proof
    assume r: "rest = [] \<and> fp = []"
    with assms(3) have "ip \<noteq> []" by simp
    then show ?thesis
      unfolding strtod_ok_def assms(5) Let_def ip
      using r z [of ip] assms(4) by (simp add: exponent_ok_def)
  next
    assume r: "rest = CHR ''.'' # fp"
    show ?thesis
      unfolding strtod_ok_def assms(5) Let_def ip
      unfolding r list.sel fp
      using assms(3) z [of ip] z [of fp] assms(4) by (simp add: exponent_ok_def)
  qed
qed

lemma strtod_ok_body:
  assumes "list_all (\<lambda>c. is_digit c \<or> c = CHR ''.'') body"
    and "length (filter (\<lambda>c. c = CHR ''.'') body) \<le> 1"
    and "list_ex is_digit body"
    and "int (length body) \<le> MAX_DIGITS"
    and "drop_sign s = body"
  shows "strtod_ok s"
proof -
  define ip where "ip = takeWhile is_digit body"
  define r1 where "r1 = dropWhile is_digit body"
  have body: "body = ip @ r1" by (simp add: ip_def r1_def)
  have ipd: "list_all is_digit ip"
    by (auto simp: ip_def list_all_iff dest: set_takeWhileD)
  have d: "drop_sign s = ip @ r1" using assms(5) body by simp
  from digits_then_point [OF assms(1,2)]
  have "r1 = [] \<or> (\<exists>fp. r1 = CHR ''.'' # fp \<and> list_all is_digit fp)"
    by (simp add: r1_def)
  then show ?thesis
  proof
    assume r: "r1 = []"
    from assms(3) have "body \<noteq> []" by auto
    with r body have "ip \<noteq> []" by simp
    moreover have "int (length ip) + int (length ([] :: string)) \<le> MAX_DIGITS"
      using assms(4) body r by simp
    ultimately show ?thesis
      using strtod_ok_digits [of ip "[]" s r1] ipd d r by simp
  next
    assume "\<exists>fp. r1 = CHR ''.'' # fp \<and> list_all is_digit fp"
    then obtain fp where r: "r1 = CHR ''.'' # fp" and fp: "list_all is_digit fp" by blast
    have some: "ip \<noteq> [] \<or> fp \<noteq> []"
    proof (rule ccontr)
      assume "\<not> (ip \<noteq> [] \<or> fp \<noteq> [])"
      then have "body = [CHR ''.'']" using r body by simp
      with assms(3) show False by (simp add: is_digit_def)
    qed
    have l: "int (length ip) + int (length fp) \<le> MAX_DIGITS"
      using body r assms(4) by simp
    from strtod_ok_digits [OF ipd fp some l d] r show ?thesis by simp
  qed
qed

lemma plain_number_accepted:
  assumes "spec_plain_number s" and "int (length s) \<le> MAX_DIGITS"
  shows "float_ok s"
proof -
  define body where "body = (case s of [] \<Rightarrow> []
      | c # cs \<Rightarrow> if c = CHR ''-'' \<or> c = CHR ''+'' then cs else s)"
  have b1: "list_all (\<lambda>c. is_digit c \<or> c = CHR ''.'') body"
    and b2: "length (filter (\<lambda>c. c = CHR ''.'') body) \<le> 1"
    and b3: "list_ex is_digit body"
    using assms(1) unfolding spec_plain_number_def body_def [symmetric] Let_def
    by blast+
  have ds: "drop_sign s = body"
    unfolding drop_sign_def body_def by (rule refl)
  have shape: "s = body \<or> s = CHR ''-'' # body \<or> s = CHR ''+'' # body"
  proof (cases s)
    case Nil
    then show ?thesis by (simp add: body_def)
  next
    case (Cons c cs)
    then show ?thesis by (simp add: body_def)
  qed
  then have "length body \<le> length s" by auto
  with assms(2) have cap: "int (length body) \<le> MAX_DIGITS" by simp
  have plain: "plain_char c" if "c \<in> set s" for c
  proof -
    from shape that have "c \<in> set body \<or> c = CHR ''-'' \<or> c = CHR ''+''" by auto
    with b1 show ?thesis by (auto simp: plain_char_def list_all_iff)
  qed
  from strtod_ok_body [OF b1 b2 b3 cap ds] float_ok_plain [OF plain] show ?thesis by simp
qed

subsection \<open>The rules\<close>

text \<open>
  Claim C6, as amended. In every row but the header, a cell of column 3 or 4 gets no
  critical finding, and no finding saying \<open>Value must be numeric\<close>, when \<open>float\<close>
  accepts its text with the commas removed and the whitespace at its ends stripped; a
  cell whose text \<open>float\<close> refuses gets exactly one, with type \<open>error\<close>, severity
  \<open>critical\<close> and that message. What \<open>float\<close> accepts includes every plain number: an
  optional sign, then digits with at most one decimal point and at least one digit, in
  no more than \<open>10\<^sup>9\<close> characters.
\<close>

theorem numeric_rule:
  assumes "0 < i" and "i < length data" and "j < length (data ! i)" and "j = 3 \<or> j = 4"
  shows "filter (\<lambda>f. severity f = ''critical'') (findings_at i j (validate_table data)) =
           (if float_ok (strip (remove_char (CHR '','') (data ! i ! j))) then []
            else [\<lparr>row = i, column = j, ftype = ''error'', severity = ''critical'',
                   message = ''Value must be numeric''\<rparr>])
         \<and> filter (\<lambda>f. message f = ''Value must be numeric'')
             (findings_at i j (validate_table data)) =
           (if float_ok (strip (remove_char (CHR '','') (data ! i ! j))) then []
            else [\<lparr>row = i, column = j, ftype = ''error'', severity = ''critical'',
                   message = ''Value must be numeric''\<rparr>])
         \<and> (spec_plain_number (strip (remove_char (CHR '','') (data ! i ! j))) \<and>
              int (length (strip (remove_char (CHR '','') (data ! i ! j)))) \<le> 1000000000 \<longrightarrow>
              filter (\<lambda>f. severity f = ''critical'')
                (findings_at i j (validate_table data)) = [])"
proof -
  have at: "findings_at i j (validate_table data) = validate_cell i j (data ! i ! j) []"
    using assms(2,3) by (rule findings_at_table)
  have rec: "numeric_finding i j = \<lparr>row = i, column = j, ftype = ''error'',
      severity = ''critical'', message = ''Value must be numeric''\<rparr>"
    by (simp add: numeric_finding_def)
  from assms(4) have j: "\<not> j \<le> 2" "j \<noteq> 2" by auto
  have plain: "float_ok x" if "spec_plain_number x" and "int (length x) \<le> 1000000000" for x
    using that plain_number_accepted [of x] by (simp add: MAX_DIGITS_def)
  show ?thesis
    unfolding at validate_cell_body [OF assms(1)] rec [symmetric]
    using assms(4) j plain by (simp add: finding_fields del: list_ex_Cons_iff)
qed

theorem numeric_rule_witness:
  "spec_plain_number (strip (remove_char (CHR '','') ''1,234.5''))
   \<and> int (length (strip (remove_char (CHR '','') ''1,234.5''))) \<le> 1000000000
   \<and> map (\<lambda>i. filter (\<lambda>f. severity f = ''critical'')
               (findings_at i 3 (validate_table amounts_table))) [1, 2, 3, 4, 5, 6, 7] =
     [[], [], [], [], [], [], []]
   \<and> map (\<lambda>i. filter (\<lambda>f. severity f = ''critical'')
               (findings_at i 4 (validate_table amounts_table))) [1, 2, 3, 4, 5, 6, 7] =
     map (\<lambda>i. [\<lparr>row = i, column = 4, ftype = ''error'', severity = ''critical'',
                   message = ''Value must be numeric''\<rparr>]) [1, 2, 3, 4, 5, 6, 7]"
proof -
  have accepted:
    "float_ok (strip (remove_char (CHR '','') ''1,234.5''))"
    "float_ok (strip (remove_char (CHR '','') ''-5''))"
    "float_ok (strip (remove_char (CHR '','') ''+1.5e-3''))"
    "float_ok (strip (remove_char (CHR '','') '' .5 ''))"
    "float_ok (strip (remove_char (CHR '','') ''1_000''))"
    "float_ok (strip (remove_char (CHR '','') ''nan''))"
    "float_ok (strip (remove_char (CHR '','') ''-Infinity''))"
    by code_simp+
  have refused:
    "\<not> float_ok (strip (remove_char (CHR '','') ''12a4''))"
    "\<not> float_ok (strip (remove_char (CHR '','') ''--5''))"
    "\<not> float_ok (strip (remove_char (CHR '','') ''1e''))"
    "\<not> float_ok (strip (remove_char (CHR '','') ''.''))"
    "\<not> float_ok (strip (remove_char (CHR '','') ''1__0''))"
    "\<not> float_ok (strip (remove_char (CHR '','') ''infin''))"
    "\<not> float_ok (strip (remove_char (CHR '','') ''''))"
    by code_simp+
  have len: "length amounts_table = 8" by (simp add: amounts_table_def)
  have col3: "filter (\<lambda>f. severity f = ''critical'')
      (findings_at i 3 (validate_table amounts_table)) = []"
    if "i \<in> {1, 2, 3, 4, 5, 6, 7}" for i
    using that accepted numeric_rule [of i amounts_table 3, THEN conjunct1]
    by (auto simp: amounts_table_def)
  have col4: "filter (\<lambda>f. severity f = ''critical'')
      (findings_at i 4 (validate_table amounts_table)) =
      [\<lparr>row = i, column = 4, ftype = ''error'', severity = ''critical'',
        message = ''Value must be numeric''\<rparr>]"
    if "i \<in> {1, 2, 3, 4, 5, 6, 7}" for i
    using that refused numeric_rule [of i amounts_table 4, THEN conjunct1]
    by (auto simp: amounts_table_def)
  have plain: "spec_plain_number (strip (remove_char (CHR '','') ''1,234.5''))"
    "int (length (strip (remove_char (CHR '','') ''1,234.5''))) \<le> 1000000000"
    by code_simp+
  have row1: "filter (\<lambda>f. severity f = ''critical'')
      (findings_at 1 3 (validate_table amounts_table)) = []"
    using plain numeric_rule [of 1 amounts_table 3, THEN conjunct2, THEN conjunct2]
    by (simp add: amounts_table_def)
  show ?thesis using row1 plain by (simp add: col3 col4)
qed

text \<open>
  Claim C6 as the specification words it fails where \<open>float\<close> accepts a text that is
  not a number: \<open>nan\<close>, \<open>-Infinity\<close> and \<open>1_000\<close> in a numeric column get no finding.
\<close>

theorem numeric_rule_counterexample:
  "\<not> spec_plain_number (strip (remove_char (CHR '','') ''nan''))
   \<and> findings_at 6 3 (validate_table amounts_table) = []
   \<and> \<not> spec_plain_number (strip (remove_char (CHR '','') ''-Infinity''))
   \<and> findings_at 7 3 (validate_table amounts_table) = []
   \<and> \<not> spec_plain_number (strip (remove_char (CHR '','') ''1_000''))
   \<and> findings_at 5 3 (validate_table amounts_table) = []"
proof -
  have p: "\<not> spec_plain_number (strip (remove_char (CHR '','') ''nan''))"
    "\<not> spec_plain_number (strip (remove_char (CHR '','') ''-Infinity''))"
    "\<not> spec_plain_number (strip (remove_char (CHR '','') ''1_000''))"
    by code_simp+
  have c: "validate_cell 6 3 ''nan'' [] = []" "validate_cell 7 3 ''-Infinity'' [] = []"
    "validate_cell 5 3 ''1_000'' [] = []"
    by code_simp+
  have f: "findings_at 6 3 (validate_table amounts_table) = []"
    "findings_at 7 3 (validate_table amounts_table) = []"
    "findings_at 5 3 (validate_table amounts_table) = []"
    using c findings_at_table [of 6 amounts_table 3] findings_at_table [of 7 amounts_table 3]
      findings_at_table [of 5 amounts_table 3]
    by (simp_all add: amounts_table_def)
  from p f show ?thesis by blast
qed

text \<open>
  Claim C7, as amended. In every row but the header, the cell of column 2 gets no
  finding of severity \<open>warning\<close> when \<open>strptime\<close> with the format \<open>%Y-%m-%d\<close> accepts
  its stripped text: a 4-digit year from 0001 on, a month of one or two digits and a day
  of one or two digits (or a blank and a digit), joined by hyphens and naming a real
  calendar date. Any other text gets exactly one finding of severity \<open>warning\<close>, and
  its message is \<open>Invalid date format (should be YYYY-MM-DD)\<close>.
\<close>

theorem date_rule:
  assumes "0 < i" and "i < length data" and "2 < length (data ! i)"
  shows "filter (\<lambda>f. severity f = ''warning'') (findings_at i 2 (validate_table data)) =
           (if strptime_ok (strip (data ! i ! 2)) then []
            else [\<lparr>row = i, column = 2, ftype = ''error'', severity = ''warning'',
                   message = ''Invalid date format (should be YYYY-MM-DD)''\<rparr>])"
proof -
  have at: "findings_at i 2 (validate_table data) = validate_cell i 2 (data ! i ! 2) []"
    using assms(2,3) by (rule findings_at_table)
  have rec: "date_finding i 2 = \<lparr>row = i, column = 2, ftype = ''error'',
      severity = ''warning'', message = ''Invalid date format (should be YYYY-MM-DD)''\<rparr>"
    by (simp add: date_finding_def)
  show ?thesis
    unfolding at validate_cell_body [OF assms(1)] rec [symmetric]
    by (simp add: finding_fields del: list_ex_Cons_iff)
qed

theorem date_rule_witness:
  "filter (\<lambda>f. severity f = ''warning'')
     (findings_at 1 2 (validate_table
        [[''Id'', ''Name'', ''Date''], [''7'', ''Rent'', ''2024-01-15''],
         [''8'', ''Fuel'', ''15/01/2024'']])) = []
   \<and> filter (\<lambda>f. severity f = ''warning'')
     (findings_at 2 2 (validate_table
        [[''Id'', ''Name'', ''Date''], [''7'', ''Rent'', ''2024-01-15''],
         [''8'', ''Fuel'', ''15/01/2024'']])) =
     [\<lparr>row = 2, column = 2, ftype = ''error'', severity = ''warning'',
       message = ''Invalid date format (should be YYYY-MM-DD)''\<rparr>]"
proof -
  have ok: "strptime_ok (strip ''2024-01-15'')" by code_simp
  have bad: "\<not> strptime_ok (strip ''15/01/2024'')" by code_simp
  show ?thesis
    using ok bad
      date_rule [of 1 "[[''Id'', ''Name'', ''Date''], [''7'', ''Rent'', ''2024-01-15''],
         [''8'', ''Fuel'', ''15/01/2024'']]"]
      date_rule [of 2 "[[''Id'', ''Name'', ''Date''], [''7'', ''Rent'', ''2024-01-15''],
         [''8'', ''Fuel'', ''15/01/2024'']]"]
    by simp
qed

text \<open>
  Claim C7 as the specification words it fails in three ways. \<open>2024-1-5\<close> does not
  match the pattern of a 2-digit month and day, yet it gets no finding. \<open>2024-02-30\<close>
  matches the pattern, yet it gets a finding, since there is no such day. And the
  message of the finding is longer than \<open>Invalid date format\<close>.
\<close>

theorem date_rule_counterexample:
  "\<not> spec_iso_date_pattern (strip ''2024-1-5'')
   \<and> findings_at 1 2 (validate_table
        [[''Id'', ''Name'', ''Date''], [''7'', ''Rent'', ''2024-1-5'']]) = []
   \<and> spec_iso_date_pattern (strip ''2024-02-30'')
   \<and> findings_at 1 2 (validate_table
        [[''Id'', ''Name'', ''Date''], [''7'', ''Rent'', ''2024-02-30'']]) \<noteq> []
   \<and> map message (findings_at 1 2 (validate_table
        [[''Id'', ''Name'', ''Date''], [''7'', ''Rent'', ''15/01/2024'']])) =
       [''Invalid date format (should be YYYY-MM-DD)'']
   \<and> ''Invalid date format (should be YYYY-MM-DD)'' \<noteq> ''Invalid date format''"
proof -
  have p1: "\<not> spec_iso_date_pattern (strip ''2024-1-5'')" by code_simp
  have p2: "spec_iso_date_pattern (strip ''2024-02-30'')" by code_simp
  have c1: "validate_cell 1 2 ''2024-1-5'' [] = []" by code_simp
  have c2: "validate_cell 1 2 ''2024-02-30'' [] = [date_finding 1 2]" by code_simp
  have c3: "validate_cell 1 2 ''15/01/2024'' [] = [date_finding 1 2]" by code_simp
  have f1: "findings_at 1 2 (validate_table
        [[''Id'', ''Name'', ''Date''], [''7'', ''Rent'', ''2024-1-5'']]) = []"
    using findings_at_table [of 1 "[[''Id'', ''Name'', ''Date''],
      [''7'', ''Rent'', ''2024-1-5'']]" 2] c1 by simp
  have f2: "findings_at 1 2 (validate_table
        [[''Id'', ''Name'', ''Date''], [''7'', ''Rent'', ''2024-02-30'']]) = [date_finding 1 2]"
    using findings_at_table [of 1 "[[''Id'', ''Name'', ''Date''],
      [''7'', ''Rent'', ''2024-02-30'']]" 2] c2 by simp
  have f3: "findings_at 1 2 (validate_table
        [[''Id'', ''Name'', ''Date''], [''7'', ''Rent'', ''15/01/2024'']]) = [date_finding 1 2]"
    using findings_at_table [of 1 "[[''Id'', ''Name'', ''Date''],
      [''7'', ''Rent'', ''15/01/2024'']]" 2] c3 by simp
  show ?thesis
    unfolding f1 f2 f3 using p1 p2 by (simp add: finding_fields)
qed

text \<open>
  Claim C8. In every row but the header, a cell whose text contains \<open>O0\<close>, \<open>l1\<close> or
  \<open>S5\<close> gets one finding of type \<open>warning\<close> and severity \<open>info\<close>, appended after the
  findings of the other rules for that cell; those are exactly what the mandatory, numeric
  and date checks emit for the cell, none of them dropped.
\<close>

theorem ocr_rule:
  assumes "0 < i" and "i < length data" and "j < length (data ! i)"
    and "d \<in> {''O0'', ''l1'', ''S5''}" and "data ! i ! j = pre @ d @ post"
  shows "findings_at i j (validate_table data) =
           filter (\<lambda>f. severity f \<noteq> ''info'') (findings_at i j (validate_table data)) @
           [\<lparr>row = i, column = j, ftype = ''warning'', severity = ''info'',
             message = ''Possible OCR confusion (O/0, l/1, S/5)''\<rparr>]
         \<and> filter (\<lambda>f. severity f \<noteq> ''info'') (findings_at i j (validate_table data)) =
           (if strip (data ! i ! j) = [] \<and> j \<le> 2
            then [\<lparr>row = i, column = j, ftype = ''error'', severity = ''critical'',
                   message = ''Mandatory field cannot be empty''\<rparr>] else []) @
           (if (j = 3 \<or> j = 4) \<and> \<not> float_ok (strip (remove_char (CHR '','') (data ! i ! j)))
            then [\<lparr>row = i, column = j, ftype = ''error'', severity = ''critical'',
                   message = ''Value must be numeric''\<rparr>] else []) @
           (if j = 2 \<and> \<not> strptime_ok (strip (data ! i ! j))
            then [\<lparr>row = i, column = j, ftype = ''error'', severity = ''warning'',
                   message = ''Invalid date format (should be YYYY-MM-DD)''\<rparr>] else [])"
proof -
  have at: "findings_at i j (validate_table data) = validate_cell i j (data ! i ! j) []"
    using assms(2,3) by (rule findings_at_table)
  have "contains d (data ! i ! j)" using assms(5) contains_iff by blast
  with assms(4)
  have hit: "list_ex (\<lambda>digraph. contains digraph (data ! i ! j)) [''O0'', ''l1'', ''S5'']"
    by auto
  have recs:
    "mandatory_finding i j = \<lparr>row = i, column = j, ftype = ''error'',
       severity = ''critical'', message = ''Mandatory field cannot be empty''\<rparr>"
    "numeric_finding i j = \<lparr>row = i, column = j, ftype = ''error'',
       severity = ''critical'', message = ''Value must be numeric''\<rparr>"
    "date_finding i j = \<lparr>row = i, column = j, ftype = ''error'',
       severity = ''warning'', message = ''Invalid date format (should be YYYY-MM-DD)''\<rparr>"
    "ocr_finding i j = \<lparr>row = i, column = j, ftype = ''warning'',
       severity = ''info'', message = ''Possible OCR confusion (O/0, l/1, S/5)''\<rparr>"
    by (simp_all add: mandatory_finding_def numeric_finding_def date_finding_def
        ocr_finding_def)
  show ?thesis
    unfolding at validate_cell_body [OF assms(1)] recs [symmetric]
    using hit by (simp add: finding_fields del: list_ex_Cons_iff)
qed

theorem ocr_rule_witness:
  "findings_at 1 4 (validate_table
        [[''Id'', ''Name'', ''Date'', ''Amount'', ''Tax''],
         [''7'', ''Rent'', ''2024-01-15'', ''1,234.5'', ''12O0'']]) =
     [\<lparr>row = 1, column = 4, ftype = ''error'', severity = ''critical'',
       message = ''Value must be numeric''\<rparr>,
      \<lparr>row = 1, column = 4, ftype = ''warning'', severity = ''info'',
       message = ''Possible OCR confusion (O/0, l/1, S/5)''\<rparr>]"
proof -
  let ?D = "[[''Id'', ''Name'', ''Date'', ''Amount'', ''Tax''],
         [''7'', ''Rent'', ''2024-01-15'', ''1,234.5'', ''12O0'']]"
  let ?F = "findings_at 1 4 (validate_table ?D)"
  have bad: "\<not> float_ok (strip (remove_char (CHR '','') ''12O0''))" by code_simp
  have full: "strip ''12O0'' \<noteq> []" by code_simp
  have "(0::nat) < 1" and "1 < length ?D" and "4 < length (?D ! 1)"
    and "''O0'' \<in> {''O0'', ''l1'', ''S5''}" and "?D ! 1 ! 4 = ''12'' @ ''O0'' @ []"
    by simp_all
  note r = ocr_rule [OF this]
  have b: "filter (\<lambda>f. severity f \<noteq> ''info'') ?F =
      [\<lparr>row = 1, column = 4, ftype = ''error'', severity = ''critical'',
        message = ''Value must be numeric''\<rparr>]"
    using r [THEN conjunct2] bad full by simp
  show ?thesis
    by (subst r [THEN conjunct1], subst b) simp
qed

text \<open>
  Claim C9. In every row but the header, a cell of column 2 that is empty or holds only
  whitespace gets exactly two findings: the critical
  \<open>Mandatory field cannot be empty\<close>, then the invalid-date finding of severity
  \<open>warning\<close>. It gets no numeric and no OCR-confusion finding.
\<close>

theorem blank_date_cell:
  assumes "0 < i" and "i < length data" and "2 < length (data ! i)"
    and "\<forall>c \<in> set (data ! i ! 2). py_isspace c"
  shows "findings_at i 2 (validate_table data) =
           [\<lparr>row = i, column = 2, ftype = ''error'', severity = ''critical'',
             message = ''Mandatory field cannot be empty''\<rparr>,
            \<lparr>row = i, column = 2, ftype = ''error'', severity = ''warning'',
             message = ''Invalid date format (should be YYYY-MM-DD)''\<rparr>]"
proof -
  have at: "findings_at i 2 (validate_table data) = validate_cell i 2 (data ! i ! 2) []"
    using assms(2,3) by (rule findings_at_table)
  have blank: "strip (data ! i ! 2) = []" using assms(4) by (simp add: strip_empty_iff)
  show ?thesis
    unfolding at validate_cell_body [OF assms(1)]
    using blank blank_has_no_digraph [OF assms(4)] strptime_rejects_empty
    by (simp add: date_finding_def mandatory_finding_def del: list_ex_Cons_iff)
qed

theorem blank_date_cell_witness:
  "findings_at 1 2 (validate_table
        [[''Id'', ''Name'', ''Date''], [''7'', ''Rent'', ''  '']]) =
     [\<lparr>row = 1, column = 2, ftype = ''error'', severity = ''critical'',
       message = ''Mandatory field cannot be empty''\<rparr>,
      \<lparr>row = 1, column = 2, ftype = ''error'', severity = ''warning'',
       message = ''Invalid date format (should be YYYY-MM-DD)''\<rparr>]"
  using blank_date_cell [of 1 "[[''Id'', ''Name'', ''Date''], [''7'', ''Rent'', ''  '']]"]
  by (simp add: py_isspace_def)

section \<open>Properties of the exporters\<close>

subsection \<open>Loops that may raise\<close>

lemma for_each_cong:
  "(\<And>x. x \<in> set xs \<Longrightarrow> f x = g x) \<Longrightarrow> for_each f xs = for_each g xs"
  by (induction xs) (simp_all split: sum.splits)

lemma for_each_rel:
  "list_all2 (\<lambda>x y. f x = g y) xs ys \<Longrightarrow> for_each f xs = for_each g ys"
  by (induction xs ys rule: list_all2_induct) (simp_all split: sum.splits)

lemma for_each_succeeds:
  "(\<And>x. x \<in> set xs \<Longrightarrow> \<exists>y. f x = Inr y) \<Longrightarrow> \<exists>ys. for_each f xs = Inr ys"
proof (induction xs)
  case Nil
  show ?case by simp
next
  case (Cons x xs)
  from Cons.prems obtain y where "f x = Inr y" by auto
  moreover from Cons obtain ys where "for_each f xs = Inr ys" by auto
  ultimately show ?case by simp
qed

lemma for_each_total:
  "(\<And>x. x \<in> set xs \<Longrightarrow> f x = Inr (g x)) \<Longrightarrow> for_each f xs = Inr (map g xs)"
  by (induction xs) simp_all

subsection \<open>Looking the headers up in a row\<close>

lemma lookup_returns:
  "cells r h \<noteq> None \<Longrightarrow> \<exists>c. getitem (cells r) h = Inr c"
  by (auto simp: getitem_def)

lemma row_raises_together:
  "\<exists>h' \<in> set hs. row_dict hs r = Inl (KeyError h') \<and>
        tallymessage_of py_str hs r = Inl (KeyError h')"
  if "h \<in> set hs" and "cells r h = None"
  using that
proof (induction hs)
  case Nil
  then show ?case by simp
next
  case (Cons a hs)
  show ?case
  proof (cases "cells r a")
    case None
    then show ?thesis by (simp add: row_dict_def tallymessage_of_def getitem_def)
  next
    case (Some c)
    with Cons.prems have "h \<in> set hs" by auto
    from Cons.IH [OF this Cons.prems(2)] obtain h' where "h' \<in> set hs"
      and "row_dict hs r = Inl (KeyError h')"
      and "tallymessage_of py_str hs r = Inl (KeyError h')" by blast
    then show ?thesis
      using Some by (auto simp: row_dict_def tallymessage_of_def getitem_def split: sum.splits)
  qed
qed

lemma row_returns:
  assumes "\<forall>h \<in> set hs. cells r h \<noteq> None"
  shows "\<exists>d. row_dict hs r = Inr d" and "\<exists>m. tallymessage_of py_str hs r = Inr m"
proof -
  have "\<exists>ys. for_each (\<lambda>header. case getitem (cells r) header of
      Inl e \<Rightarrow> Inl e | Inr c \<Rightarrow> Inr (header, cell_value c)) hs = Inr ys"
    using assms by (intro for_each_succeeds) (auto simp: getitem_def)
  then show "\<exists>d. row_dict hs r = Inr d" by (auto simp: row_dict_def)
  have "\<exists>ys. for_each (\<lambda>header. case getitem (cells r) header of
      Inl e \<Rightarrow> Inl e | Inr c \<Rightarrow> Inr (Element header (Some (py_str (cell_value c))) [])) hs = Inr ys"
    using assms by (intro for_each_succeeds) (auto simp: getitem_def)
  then show "\<exists>m. tallymessage_of py_str hs r = Inr m" by (auto simp: tallymessage_of_def)
qed

lemma rows_raise_together:
  "\<exists>h' \<in> set hs. for_each (row_dict hs) rs = Inl (KeyError h') \<and>
        for_each (tallymessage_of py_str hs) rs = Inl (KeyError h')"
  if "r \<in> set rs" and "h \<in> set hs" and "cells r h = None"
  using that
proof (induction rs)
  case Nil
  then show ?case by simp
next
  case (Cons a rs)
  show ?case
  proof (cases "\<forall>h \<in> set hs. cells a h \<noteq> None")
    case True
    with Cons.prems have "r \<in> set rs" by auto
    from Cons.IH [OF this Cons.prems(2,3)] obtain h' where "h' \<in> set hs"
      and "for_each (row_dict hs) rs = Inl (KeyError h')"
      and "for_each (tallymessage_of py_str hs) rs = Inl (KeyError h')" by blast
    moreover from row_returns [OF True] obtain d m
      where "row_dict hs a = Inr d" "tallymessage_of py_str hs a = Inr m" by blast
    ultimately show ?thesis by auto
  next
    case False
    then obtain k where "k \<in> set hs" "cells a k = None" by auto
    from row_raises_together [OF this] obtain h' where "h' \<in> set hs"
      and "row_dict hs a = Inl (KeyError h')"
      and "tallymessage_of py_str hs a = Inl (KeyError h')" by blast
    then show ?thesis by auto
  qed
qed

lemma row_reads_values_only:
  assumes "\<forall>h \<in> set hs. map_option cell_value (cells r h) = map_option cell_value (cells s h)"
  shows "row_dict hs r = row_dict hs s"
    and "tallymessage_of py_str hs r = tallymessage_of py_str hs s"
proof -
  have same: "(case getitem (cells r) h of Inl e \<Rightarrow> Inl e | Inr c \<Rightarrow> Inr (k (cell_value c))) =
      (case getitem (cells s) h of Inl e \<Rightarrow> Inl e | Inr c \<Rightarrow> Inr (k (cell_value c)))"
    if "h \<in> set hs" for h and k :: "'a \<Rightarrow> 'b"
    using assms that by (cases "cells r h"; cases "cells s h") (auto simp: getitem_def)
  have "for_each (\<lambda>header. case getitem (cells r) header of
        Inl e \<Rightarrow> Inl e | Inr c \<Rightarrow> Inr (header, cell_value c)) hs =
      for_each (\<lambda>header. case getitem (cells s) header of
        Inl e \<Rightarrow> Inl e | Inr c \<Rightarrow> Inr (header, cell_value c)) hs"
    by (rule for_each_cong) (rule same)
  then show "row_dict hs r = row_dict hs s" by (simp add: row_dict_def)
  have "for_each (\<lambda>header. case getitem (cells r) header of
        Inl e \<Rightarrow> Inl e | Inr c \<Rightarrow> Inr (Element header (Some (py_str (cell_value c))) [])) hs =
      for_each (\<lambda>header. case getitem (cells s) header of
        Inl e \<Rightarrow> Inl e | Inr c \<Rightarrow> Inr (Element header (Some (py_str (cell_value c))) [])) hs"
    by (rule for_each_cong) (rule same)
  then show "tallymessage_of py_str hs r = tallymessage_of py_str hs s"
    by (simp add: tallymessage_of_def)
qed

lemma tallymessage_of_complete:
  assumes "\<forall>h \<in> set hs. cells r h \<noteq> None"
  shows "tallymessage_of py_str hs r = Inr (spec_row_record py_str hs r)"
proof -
  have "for_each (\<lambda>header. case getitem (cells r) header of
        Inl e \<Rightarrow> Inl e | Inr c \<Rightarrow> Inr (Element header (Some (py_str (cell_value c))) [])) hs =
      Inr (map (\<lambda>h. Element h (Some (py_str (cell_value (the (cells r h))))) []) hs)"
    using assms by (intro for_each_total) (auto simp: getitem_def)
  then show ?thesis by (simp add: tallymessage_of_def spec_row_record_def)
qed

lemma tags_of_envelope:
  "tags_of (envelope ms) =
     [''ENVELOPE'', ''HEADER'', ''VERSION'', ''TALLYREQUEST'', ''BODY'', ''IMPORTDATA'',
      ''REQUESTDESC'', ''REPORTNAME'', ''REQUESTDATA''] @ concat (map tags_of ms)"
  by (simp add: envelope_def)

lemma tags_of_row_record:
  "tags_of (spec_row_record py_str hs r) = ''TALLYMESSAGE'' # hs"
  by (simp add: spec_row_record_def comp_def map_idI)

subsection \<open>The claims about the exporters\<close>

text \<open>
  Claim C10. When every row has a cell for every declared header, each lookup
  \<open>row.cells[header]\<close> made by the exporters returns a cell: the spreadsheet and CSV
  exporters reach their writer with the frame of the looked-up values, and the XML
  exporter builds its tree. When some row lacks a declared header, all three exporters
  raise \<open>KeyError\<close> for a declared header, and nothing is written.
\<close>

theorem export_lookup_precondition:
  "((\<forall>r \<in> set (rows data). \<forall>h \<in> set (headers data). cells r h \<noteq> None) \<longrightarrow>
      (\<forall>r \<in> set (rows data). \<forall>h \<in> set (headers data).
         \<exists>c. getitem (cells r) h = Inr c) \<and>
      (\<exists>rows_data. for_each (row_dict (headers data)) (rows data) = Inr rows_data \<and>
         save_as_xlsx to_excel data = to_excel (DataFrame_of_dicts rows_data (headers data)) \<and>
         save_as_csv to_csv data = to_csv (DataFrame_of_dicts rows_data (headers data))) \<and>
      (\<exists>root. save_as_xml_tree py_str data = Inr root))
   \<and> ((\<exists>r \<in> set (rows data). \<exists>h \<in> set (headers data). cells r h = None) \<longrightarrow>
      (\<exists>h \<in> set (headers data).
         save_as_xlsx to_excel data = Inl (KeyError h) \<and>
         save_as_csv to_csv data = Inl (KeyError h) \<and>
         save_as_xml py_str data = Inl (KeyError h)))"
proof (intro conjI impI)
  assume complete: "\<forall>r \<in> set (rows data). \<forall>h \<in> set (headers data). cells r h \<noteq> None"
  then show "\<forall>r \<in> set (rows data). \<forall>h \<in> set (headers data).
      \<exists>c. getitem (cells r) h = Inr c"
    by (blast intro: lookup_returns)
  have "\<exists>ys. for_each (row_dict (headers data)) (rows data) = Inr ys"
    using complete by (intro for_each_succeeds row_returns) auto
  then show "\<exists>rows_data. for_each (row_dict (headers data)) (rows data) = Inr rows_data \<and>
      save_as_xlsx to_excel data = to_excel (DataFrame_of_dicts rows_data (headers data)) \<and>
      save_as_csv to_csv data = to_csv (DataFrame_of_dicts rows_data (headers data))"
    by (auto simp: save_as_xlsx_def save_as_csv_def)
  have "\<exists>ys. for_each (tallymessage_of py_str (headers data)) (rows data) = Inr ys"
    using complete by (intro for_each_succeeds row_returns) auto
  then show "\<exists>root. save_as_xml_tree py_str data = Inr root"
    by (auto simp: save_as_xml_tree_def)
next
  assume "\<exists>r \<in> set (rows data). \<exists>h \<in> set (headers data). cells r h = None"
  then obtain r h where "r \<in> set (rows data)" "h \<in> set (headers data)" "cells r h = None"
    by blast
  from rows_raise_together [OF this, of py_str] obtain h' where "h' \<in> set (headers data)"
    and "for_each (row_dict (headers data)) (rows data) = Inl (KeyError h')"
    and "for_each (tallymessage_of py_str (headers data)) (rows data) = Inl (KeyError h')"
    by blast
  then show "\<exists>h \<in> set (headers data).
      save_as_xlsx to_excel data = Inl (KeyError h) \<and>
      save_as_csv to_csv data = Inl (KeyError h) \<and>
      save_as_xml py_str data = Inl (KeyError h)"
    by (auto simp: save_as_xlsx_def save_as_csv_def save_as_xml_def save_as_xml_tree_def)
qed

theorem export_lookup_precondition_witness:
  "(\<exists>rows_data. for_each (row_dict (headers stock_table)) (rows stock_table) = Inr rows_data)
   \<and> (\<exists>root. save_as_xml_tree id stock_table = Inr root)
   \<and> (\<exists>h \<in> set (headers stock_table_incomplete).
         save_as_xlsx Inr stock_table_incomplete = Inl (KeyError h) \<and>
         save_as_csv Inr stock_table_incomplete = Inl (KeyError h) \<and>
         save_as_xml id stock_table_incomplete = Inl (KeyError h))"
proof -
  have complete: "\<forall>r \<in> set (rows stock_table). \<forall>h \<in> set (headers stock_table).
      cells r h \<noteq> None"
    by (simp add: stock_table_def)
  have missing: "\<exists>r \<in> set (rows stock_table_incomplete).
      \<exists>h \<in> set (headers stock_table_incomplete). cells r h = None"
    by (simp add: stock_table_incomplete_def)
  from export_lookup_precondition [of stock_table Inr Inr id, THEN conjunct1, THEN mp,
      OF complete]
    export_lookup_precondition [of stock_table_incomplete Inr Inr id, THEN conjunct2,
      THEN mp, OF missing]
  show ?thesis by blast
qed

text \<open>
  Claim C4. Two tables with the same headers, the same number of rows and, row by row,
  the same value under every declared header (or the same absence of a cell) give the
  same result in each of the three exporters, whatever their metadata: the same frame
  goes to the spreadsheet writer and to the CSV writer, and the same element tree and
  the same text are written as XML, or the same exception is raised.
\<close>

theorem export_ignores_metadata:
  assumes "headers a = headers b"
    and "list_all2 (\<lambda>r s. \<forall>h \<in> set (headers a).
           map_option cell_value (cells r h) = map_option cell_value (cells s h))
         (rows a) (rows b)"
  shows "save_as_xlsx to_excel a = save_as_xlsx to_excel b \<and>
         save_as_csv to_csv a = save_as_csv to_csv b \<and>
         save_as_xml_tree py_str a = save_as_xml_tree py_str b \<and>
         save_as_xml py_str a = save_as_xml py_str b"
proof -
  have "list_all2 (\<lambda>r s. row_dict (headers a) r = row_dict (headers a) s) (rows a) (rows b)"
    using assms(2) by (rule list_all2_mono) (rule row_reads_values_only)
  then have dicts: "for_each (row_dict (headers a)) (rows a) =
      for_each (row_dict (headers a)) (rows b)"
    by (rule for_each_rel)
  have "list_all2 (\<lambda>r s. tallymessage_of py_str (headers a) r =
      tallymessage_of py_str (headers a) s) (rows a) (rows b)"
    using assms(2) by (rule list_all2_mono) (rule row_reads_values_only)
  then have msgs: "for_each (tallymessage_of py_str (headers a)) (rows a) =
      for_each (tallymessage_of py_str (headers a)) (rows b)"
    by (rule for_each_rel)
  show ?thesis
    using dicts msgs assms(1)
    by (simp add: save_as_xlsx_def save_as_csv_def save_as_xml_def save_as_xml_tree_def
        split: sum.splits)
qed

theorem export_ignores_metadata_witness:
  "stock_table \<noteq> stock_table_flagged \<and>
   save_as_xlsx Inr stock_table = save_as_xlsx Inr stock_table_flagged \<and>
   save_as_csv Inr stock_table = save_as_csv Inr stock_table_flagged \<and>
   save_as_xml_tree id stock_table = save_as_xml_tree id stock_table_flagged \<and>
   save_as_xml id stock_table = save_as_xml id stock_table_flagged"
proof -
  have h: "headers stock_table = headers stock_table_flagged"
    by (simp add: stock_table_def stock_table_flagged_def)
  have v: "list_all2 (\<lambda>r s. \<forall>h \<in> set (headers stock_table).
           map_option cell_value (cells r h) = map_option cell_value (cells s h))
         (rows stock_table) (rows stock_table_flagged)"
    by (simp add: stock_table_def stock_table_flagged_def)
  have "cells (hd (rows stock_table)) ''Item'' \<noteq> cells (hd (rows stock_table_flagged)) ''Item''"
    by (simp add: stock_table_def stock_table_flagged_def plain_metadata_def
        flagged_metadata_def)
  then have d: "stock_table \<noteq> stock_table_flagged" by auto
  from d export_ignores_metadata [OF h v, of Inr Inr id] show ?thesis by simp
qed

text \<open>
  What the XML exporter builds for a table in which every row has a cell for every
  declared header: the envelope whose request-data block holds exactly one row record
  per row, in row order, each holding exactly one element per header, in header order,
  named by the header and with the cell's value as a string for its text. Unless a
  header begins with an opening brace, the file is the UTF-8 declaration followed by
  that tree, serialised.
\<close>

lemma xml_export_structure:
  assumes "\<forall>r \<in> set (rows data). \<forall>h \<in> set (headers data). cells r h \<noteq> None"
  shows "save_as_xml_tree py_str data =
           Inr (envelope (map (spec_row_record py_str (headers data)) (rows data)))
         \<and> ((\<forall>h \<in> set (headers data). h = [] \<or> hd h \<noteq> CHR ''{'') \<longrightarrow>
              save_as_xml py_str data =
                Inr (Some (xml_declaration @
                  serialize_xml (envelope
                    (map (spec_row_record py_str (headers data)) (rows data))))))"
proof -
  have "for_each (tallymessage_of py_str (headers data)) (rows data) =
      Inr (map (spec_row_record py_str (headers data)) (rows data))"
    using assms by (intro for_each_total tallymessage_of_complete) auto
  then have tree: "save_as_xml_tree py_str data =
      Inr (envelope (map (spec_row_record py_str (headers data)) (rows data)))"
    by (simp add: save_as_xml_tree_def)
  have "tree_write (envelope (map (spec_row_record py_str (headers data)) (rows data))) =
      Some (xml_declaration @
        serialize_xml (envelope (map (spec_row_record py_str (headers data)) (rows data))))"
    if "\<forall>h \<in> set (headers data). h = [] \<or> hd h \<noteq> CHR ''{''"
    using that
    by (auto simp: tree_write_def tags_of_envelope tags_of_row_record list_ex_iff)
  with tree show ?thesis by (simp add: save_as_xml_def)
qed

text \<open>A table of two columns and three rows gives three row records of two elements.\<close>

lemma xml_export_of_stock_table:
  "save_as_xml id stock_table =
     Inr (Some (xml_declaration @
       ''<ENVELOPE><HEADER><VERSION>1</VERSION><TALLYREQUEST>Import Data</TALLYREQUEST></HEADER><BODY><IMPORTDATA><REQUESTDESC><REPORTNAME>Custom</REPORTNAME></REQUESTDESC><REQUESTDATA><TALLYMESSAGE><Item>Pen</Item><Qty>3</Qty></TALLYMESSAGE><TALLYMESSAGE><Item>Ink</Item><Qty>12</Qty></TALLYMESSAGE><TALLYMESSAGE><Item>A&lt;B</Item><Qty /></TALLYMESSAGE></REQUESTDATA></IMPORTDATA></BODY></ENVELOPE>''))"
proof -
  have complete: "\<forall>r \<in> set (rows stock_table). \<forall>h \<in> set (headers stock_table).
      cells r h \<noteq> None"
    by (simp add: stock_table_def)
  have plain: "\<forall>h \<in> set (headers stock_table). h = [] \<or> hd h \<noteq> CHR ''{''"
    by (simp add: stock_table_def)
  from xml_export_structure [OF complete, of id, THEN conjunct2, THEN mp, OF plain]
  show ?thesis
    by (simp add: stock_table_def spec_row_record_def envelope_def escape_cdata_def)
qed

text \<open>
  The tags of that tree are all names XML allows exactly when the table has no row or
  every header is such a name.
\<close>

lemma envelope_tags_are_names:
  "list_all xml_name
     [''ENVELOPE'', ''HEADER'', ''VERSION'', ''TALLYREQUEST'', ''BODY'', ''IMPORTDATA'',
      ''REQUESTDESC'', ''REPORTNAME'', ''REQUESTDATA'', ''TALLYMESSAGE'']"
  by code_simp

lemma tags_well_formed_iff:
  assumes "\<forall>r \<in> set (rows data). \<forall>h \<in> set (headers data). cells r h \<noteq> None"
  shows "(\<exists>root. save_as_xml_tree py_str data = Inr root \<and> well_formed_tags root) \<longleftrightarrow>
         rows data = [] \<or> (\<forall>h \<in> set (headers data). xml_name h)"
proof -
  have "for_each (tallymessage_of py_str (headers data)) (rows data) =
      Inr (map (spec_row_record py_str (headers data)) (rows data))"
    using assms by (intro for_each_total tallymessage_of_complete) auto
  then have tree: "save_as_xml_tree py_str data =
      Inr (envelope (map (spec_row_record py_str (headers data)) (rows data)))"
    by (simp add: save_as_xml_tree_def)
  have "well_formed_tags (envelope (map (spec_row_record py_str (headers data)) (rows data)))
      \<longleftrightarrow> rows data = [] \<or> (\<forall>h \<in> set (headers data). xml_name h)"
    using envelope_tags_are_names
    by (cases "rows data")
      (auto simp: well_formed_tags_def tags_of_envelope tags_of_row_record list_all_iff)
  with tree show ?thesis by simp
qed

text \<open>
  Claim C3 at a header with a blank in it. The table keeps the invariants of the data
  model: its headers differ and its row has a cell for each. The exporter writes the
  header as it is, so the document holds the tag \<open>Invoice No\<close>, which is not a name XML
  allows for an element: the document is not well-formed.
\<close>

theorem xml_export_header_with_blank:
  "distinct (headers invoice_table)
   \<and> list_all (\<lambda>r. list_all (\<lambda>h. cells r h \<noteq> None) (headers invoice_table))
         (rows invoice_table)
   \<and> save_as_xml id invoice_table =
     Inr (Some (xml_declaration @
       ''<ENVELOPE><HEADER><VERSION>1</VERSION><TALLYREQUEST>Import Data</TALLYREQUEST></HEADER><BODY><IMPORTDATA><REQUESTDESC><REPORTNAME>Custom</REPORTNAME></REQUESTDESC><REQUESTDATA><TALLYMESSAGE><Invoice No>INV-7</Invoice No><Amount>100</Amount></TALLYMESSAGE></REQUESTDATA></IMPORTDATA></BODY></ENVELOPE>''))
   \<and> \<not> xml_name ''Invoice No''
   \<and> (\<exists>root. save_as_xml_tree id invoice_table = Inr root \<and> \<not> well_formed_tags root)"
proof -
  have b: "save_as_xml id invoice_table =
     Inr (Some (xml_declaration @
       ''<ENVELOPE><HEADER><VERSION>1</VERSION><TALLYREQUEST>Import Data</TALLYREQUEST></HEADER><BODY><IMPORTDATA><REQUESTDESC><REPORTNAME>Custom</REPORTNAME></REQUESTDESC><REQUESTDATA><TALLYMESSAGE><Invoice No>INV-7</Invoice No><Amount>100</Amount></TALLYMESSAGE></REQUESTDATA></IMPORTDATA></BODY></ENVELOPE>''))"
    by (simp add: save_as_xml_def save_as_xml_tree_def tallymessage_of_def getitem_def
        invoice_table_def envelope_def tree_write_def escape_cdata_def)
  have c: "\<not> xml_name ''Invoice No''"
    by (simp add: xml_name_def name_char_def name_start_char_def)
  have d: "\<exists>root. save_as_xml_tree id invoice_table = Inr root \<and> \<not> well_formed_tags root"
    by (simp add: save_as_xml_tree_def tallymessage_of_def getitem_def
        invoice_table_def envelope_def well_formed_tags_def xml_name_def name_char_def
        name_start_char_def)
  have a: "distinct (headers invoice_table)"
    "list_all (\<lambda>r. list_all (\<lambda>h. cells r h \<noteq> None) (headers invoice_table))
       (rows invoice_table)"
    by (simp_all add: invoice_table_def)
  from a b c d show ?thesis by blast
qed

section \<open>Properties of the conversion\<close>

subsection \<open>Extraction\<close>

lemma split_on_nonempty: "split_on sep s \<noteq> []"
  by (induction s) (simp_all add: Let_def)

lemma blank_text_gives_empty_frame:
  assumes "\<forall>c \<in> set text. py_isspace c"
  shows "process_image_ocr (OcrText text) = Inr \<lparr>columns = [], frame_rows = []\<rparr>"
proof -
  have "strip text = []" using assms by (simp add: strip_empty_iff)
  then show ?thesis
    by (simp add: process_image_ocr_def split_ws_def DataFrame_def)
qed

lemma ocr_guard_is_dead:
  "process_image_ocr img \<noteq>
     Inl (ConversionError ''Failed to process image: No text detected in image'')"
  by (cases img)
    (simp_all add: process_image_ocr_def split_on_nonempty Let_def split: sum.splits)

lemma width_of_rectangle:
  assumes "rs \<noteq> []" and "\<forall>r \<in> set rs. length r = n"
  shows "foldr max (map length rs) 0 = n"
  using assms
proof (induction rs)
  case Nil
  then show ?case by simp
next
  case (Cons r rs)
  then show ?case by (cases "rs = []") simp_all
qed

lemma DataFrame_of_rectangle:
  assumes "\<forall>r \<in> set rs. length r = length h"
  shows "DataFrame rs h = Inr \<lparr>columns = h, frame_rows = rs\<rparr>"
proof (cases "rs = []")
  case True
  then show ?thesis by (simp add: DataFrame_def)
next
  case False
  from width_of_rectangle [OF False assms] assms show ?thesis
    by (simp add: DataFrame_def False map_idI)
qed

subsection \<open>What the conversion accepts and refuses\<close>

lemma extension_of_pdf: "lower (splitext_ext ''uploads/doc.pdf'') = ''.pdf''"
  by code_simp

lemma extension_of_png: "lower (splitext_ext ''uploads/scan.png'') = ''.png''"
  by code_simp

lemma pdf_without_tables:
  assumes "lower (splitext_ext file_path) = ''.pdf''"
    and "pdfplumber file_path = Pages pages"
    and "filter (\<lambda>table. table \<noteq> []) (concat pages) = []"
  shows "convert_file pdfplumber ocr file_path file_id output_formats =
           ([PdfExtraction], Inl (ConversionError ''No tables found in PDF''))"
  using assms by (simp add: convert_file_def extract_data_def extract_tables_from_pdf_def)

lemma unsupported_extension_rejected:
  assumes "lower (splitext_ext file_path) \<notin> {''.pdf'', ''.png'', ''.jpg'', ''.jpeg''}"
  shows "convert_file pdfplumber ocr file_path file_id output_formats =
           ([], Inl (HTTPException 400 ''Unsupported file format''))"
  using assms by (simp add: convert_file_def extract_data_def)

lemma unknown_format_skipped:
  assumes "format \<notin> {''xlsx'', ''csv'', ''xml''}"
  shows "export_format data file_id format st = st"
  using assms by (simp add: export_format_def Let_def)

lemma unknown_formats_ignored:
  "fold (export_format data file_id) output_formats st =
   fold (export_format data file_id)
     (filter (\<lambda>format. format \<in> {''xlsx'', ''csv'', ''xml''}) output_formats) st"
proof (induction output_formats arbitrary: st)
  case Nil
  show ?case by simp
next
  case (Cons format formats)
  show ?case
  proof (cases "format \<in> {''xlsx'', ''csv'', ''xml''}")
    case True
    then show ?thesis using Cons.IH by simp
  next
    case False
    then have "export_format data file_id format st = st" by (rule unknown_format_skipped)
    with False Cons.IH show ?thesis by simp
  qed
qed

lemma extension_of_txt: "lower (splitext_ext ''uploads/notes.TXT'') = ''.txt''"
  by code_simp

lemma blank_image_succeeds:
  assumes "lower (splitext_ext file_path) \<in> {''.png'', ''.jpg'', ''.jpeg''}"
    and "ocr file_path = OcrText text"
    and "\<forall>c \<in> set text. py_isspace c"
  shows "\<exists>effects files.
           convert_file pdfplumber ocr file_path file_id output_formats =
             (effects,
              Inr \<lparr>resp_status = ''success'', resp_message = ''File converted successfully'',
                   resp_file_id = file_id, resp_headers = [], resp_rows = [],
                   converted_files = files\<rparr>)"
proof -
  from assms(1) have "lower (splitext_ext file_path) \<noteq> ''.pdf''" by auto
  with assms(1,2) blank_text_gives_empty_frame [OF assms(3)]
  have "extract_data pdfplumber ocr file_path =
      ([ImageOcr], Inr \<lparr>columns = [], frame_rows = []\<rparr>)"
    by (simp add: extract_data_def)
  then show ?thesis
    by (simp add: convert_file_def split_beta)
qed

subsection \<open>The claims about the conversion\<close>

text \<open>
  Claim C1 at an image without text. Tesseract gives a lone form feed for a blank
  page; the stripped text is empty, its split at line breaks is the list of one empty
  line, so the check for no lines does not fire. The frame has no labels and no rows,
  the XML file is written with an empty request-data block, and the conversion returns
  success with an empty table. No \<open>ConversionError\<close> is raised.
\<close>

theorem blank_image_converts:
  "convert_file (\<lambda>p. PdfRaises) (\<lambda>p. OcrText [CHR 0x0C]) ''uploads/scan.png'' ''scan''
     [''xml''] =
   ([ImageOcr,
     WriteXml ''converted/scan.xml''
       (Some (xml_declaration @
          ''<ENVELOPE><HEADER><VERSION>1</VERSION><TALLYREQUEST>Import Data</TALLYREQUEST></HEADER><BODY><IMPORTDATA><REQUESTDESC><REPORTNAME>Custom</REPORTNAME></REQUESTDESC><REQUESTDATA /></IMPORTDATA></BODY></ENVELOPE>''))],
    Inr \<lparr>resp_status = ''success'', resp_message = ''File converted successfully'',
         resp_file_id = ''scan'', resp_headers = [], resp_rows = [],
         converted_files = [(''xml'', ''/download/scan.xml'')]\<rparr>)"
proof -
  have "process_image_ocr (OcrText [CHR 0x0C]) = Inr \<lparr>columns = [], frame_rows = []\<rparr>"
    by (rule blank_text_gives_empty_frame) (simp add: py_isspace_def)
  then show ?thesis
    by (simp add: convert_file_def extract_data_def extension_of_png export_format_def
        create_tally_xml_def path_join_def CONVERTED_DIR_def basename_def envelope_def
        tree_write_def escape_cdata_def)
qed

text \<open>
  Claim C2, as amended. Every raw table that is not empty gives its first row as its
  own labels. When at least one such table is extracted, all of them have the same
  first row and every other row is as long as it, the merged table has that row for
  its headers, and its rows are the rows after the first of each raw table, in page
  and detection order, each cell under the header at its position.
\<close>

theorem pdf_tables_stacked:
  assumes "lower (splitext_ext file_path) = ''.pdf''"
    and "pdfplumber file_path = Pages pages"
    and "tables = filter (\<lambda>table. table \<noteq> []) (concat pages)"
    and "tables \<noteq> []"
    and "\<forall>t \<in> set tables. hd t = h"
    and "\<forall>t \<in> set tables. \<forall>r \<in> set (tl t). length r = length h"
  shows "extract_data pdfplumber ocr file_path =
           ([PdfExtraction], Inr \<lparr>columns = h, frame_rows = concat (map tl tables)\<rparr>)"
proof -
  let ?frame = "\<lambda>t. \<lparr>columns = h, frame_rows = tl t\<rparr> :: frame"
  have "for_each (\<lambda>table. DataFrame (tl table) (hd table)) tables = Inr (map ?frame tables)"
    using assms(5,6) by (intro for_each_total) (simp add: DataFrame_of_rectangle)
  then have frames: "extract_tables_from_pdf (pdfplumber file_path) = Inr (map ?frame tables)"
    using assms(2,3) by (simp add: extract_tables_from_pdf_def)
  from assms(4) obtain t ts where ts: "tables = t # ts" by (cases tables) auto
  have "pd_concat (map ?frame tables) =
      Inr \<lparr>columns = h, frame_rows = concat (map tl tables)\<rparr>"
    by (simp add: pd_concat_def ts list_all_iff comp_def)
  with frames assms(1,4) show ?thesis
    by (simp add: extract_data_def)
qed

theorem pdf_tables_stacked_witness:
  "extract_data (\<lambda>p. Pages [[ledger_table_1], [], [ledger_table_2]]) (\<lambda>p. ImreadNone)
     ''uploads/doc.pdf'' =
   ([PdfExtraction],
    Inr \<lparr>columns = [Str ''Item'', Str ''Qty''],
         frame_rows = [[Str ''Pen'', Str ''3''], [Str ''Ink'', Str ''12'']]\<rparr>)"
proof -
  have "[ledger_table_1, ledger_table_2] =
      filter (\<lambda>table. table \<noteq> []) (concat [[ledger_table_1], [], [ledger_table_2]])"
    by (simp add: ledger_table_1_def ledger_table_2_def)
  moreover have "\<forall>t \<in> set [ledger_table_1, ledger_table_2]. hd t = [Str ''Item'', Str ''Qty'']"
    by (simp add: ledger_table_1_def ledger_table_2_def)
  moreover have "\<forall>t \<in> set [ledger_table_1, ledger_table_2]. \<forall>r \<in> set (tl t).
      length r = length [Str ''Item'', Str ''Qty'']"
    by (simp add: ledger_table_1_def ledger_table_2_def)
  ultimately show ?thesis
    using pdf_tables_stacked [of "''uploads/doc.pdf''"
        "\<lambda>p. Pages [[ledger_table_1], [], [ledger_table_2]]"
        "[[ledger_table_1], [], [ledger_table_2]]" "[ledger_table_1, ledger_table_2]"
        "[Str ''Item'', Str ''Qty'']" "\<lambda>p. ImreadNone"]
      extension_of_pdf
    by (simp add: ledger_table_1_def ledger_table_2_def)
qed

text \<open>
  Claim C2 as the specification words it fails twice. With the same first row in two
  tables, the first row of the second table is not a row of the result. With the
  columns of the second table in the other order, its cells go under the labels of
  the same name, not under the labels at the same position.
\<close>

theorem pdf_tables_counterexample:
  "extract_data (\<lambda>p. Pages [[ledger_table_1], [ledger_table_2]]) (\<lambda>p. ImreadNone)
     ''uploads/doc.pdf'' =
     ([PdfExtraction],
      Inr \<lparr>columns = [Str ''Item'', Str ''Qty''],
           frame_rows = [[Str ''Pen'', Str ''3''], [Str ''Ink'', Str ''12'']]\<rparr>)
   \<and> spec_normalize [ledger_table_1, ledger_table_2] =
     \<lparr>columns = [Str ''Item'', Str ''Qty''],
      frame_rows = [[Str ''Pen'', Str ''3''], [Str ''Item'', Str ''Qty''],
                    [Str ''Ink'', Str ''12'']]\<rparr>
   \<and> extract_data (\<lambda>p. Pages [[ledger_table_1], [ledger_table_swapped]]) (\<lambda>p. ImreadNone)
     ''uploads/doc.pdf'' =
     ([PdfExtraction],
      Inr \<lparr>columns = [Str ''Item'', Str ''Qty''],
           frame_rows = [[Str ''Pen'', Str ''3''], [Str ''Ink'', Str ''12'']]\<rparr>)
   \<and> spec_normalize [ledger_table_1, ledger_table_swapped] =
     \<lparr>columns = [Str ''Item'', Str ''Qty''],
      frame_rows = [[Str ''Pen'', Str ''3''], [Str ''Qty'', Str ''Item''],
                    [Str ''12'', Str ''Ink'']]\<rparr>"
proof -
  have a: "extract_data (\<lambda>p. Pages [[ledger_table_1], [ledger_table_2]]) (\<lambda>p. ImreadNone)
     ''uploads/doc.pdf'' =
     ([PdfExtraction],
      Inr \<lparr>columns = [Str ''Item'', Str ''Qty''],
           frame_rows = [[Str ''Pen'', Str ''3''], [Str ''Ink'', Str ''12'']]\<rparr>)"
    by (simp add: extract_data_def extension_of_pdf extract_tables_from_pdf_def
        DataFrame_def pd_concat_def ledger_table_1_def ledger_table_2_def)
  have b: "spec_normalize [ledger_table_1, ledger_table_2] =
     \<lparr>columns = [Str ''Item'', Str ''Qty''],
      frame_rows = [[Str ''Pen'', Str ''3''], [Str ''Item'', Str ''Qty''],
                    [Str ''Ink'', Str ''12'']]\<rparr>"
    by (simp add: spec_normalize_def ledger_table_1_def ledger_table_2_def)
  have c: "extract_data (\<lambda>p. Pages [[ledger_table_1], [ledger_table_swapped]])
     (\<lambda>p. ImreadNone) ''uploads/doc.pdf'' =
     ([PdfExtraction],
      Inr \<lparr>columns = [Str ''Item'', Str ''Qty''],
           frame_rows = [[Str ''Pen'', Str ''3''], [Str ''Ink'', Str ''12'']]\<rparr>)"
    by (simp add: extract_data_def extension_of_pdf extract_tables_from_pdf_def
        DataFrame_def pd_concat_def first_seen_def reindex_def
        ledger_table_1_def ledger_table_swapped_def)
  have d: "spec_normalize [ledger_table_1, ledger_table_swapped] =
     \<lparr>columns = [Str ''Item'', Str ''Qty''],
      frame_rows = [[Str ''Pen'', Str ''3''], [Str ''Qty'', Str ''Item''],
                    [Str ''12'', Str ''Ink'']]\<rparr>"
    by (simp add: spec_normalize_def ledger_table_1_def ledger_table_swapped_def)
  from a b c d show ?thesis by blast
qed

text \<open>
  Claim C5, as amended. A path whose extension, in lower case, is none of \<open>.pdf\<close>,
  \<open>.png\<close>, \<open>.jpg\<close> and \<open>.jpeg\<close> is refused with the HTTP error 400
  \<open>Unsupported file format\<close> before any extractor runs and before any file is written.
  A requested format that is none of \<open>xlsx\<close>, \<open>csv\<close> and \<open>xml\<close> is not refused: the
  conversion does what it does without it in the list.
\<close>

theorem conversion_request_checks:
  "(lower (splitext_ext file_path) \<notin> {''.pdf'', ''.png'', ''.jpg'', ''.jpeg''} \<longrightarrow>
      convert_file pdfplumber ocr file_path file_id output_formats =
        ([], Inl (HTTPException 400 ''Unsupported file format'')))
   \<and> convert_file pdfplumber ocr file_path file_id output_formats =
       convert_file pdfplumber ocr file_path file_id
         (filter (\<lambda>format. format \<in> {''xlsx'', ''csv'', ''xml''}) output_formats)"
proof
  show "lower (splitext_ext file_path) \<notin> {''.pdf'', ''.png'', ''.jpg'', ''.jpeg''} \<longrightarrow>
      convert_file pdfplumber ocr file_path file_id output_formats =
        ([], Inl (HTTPException 400 ''Unsupported file format''))"
    using unsupported_extension_rejected by blast
  show "convert_file pdfplumber ocr file_path file_id output_formats =
       convert_file pdfplumber ocr file_path file_id
         (filter (\<lambda>format. format \<in> {''xlsx'', ''csv'', ''xml''}) output_formats)"
    unfolding convert_file_def
    by (subst unknown_formats_ignored) (rule refl)
qed

theorem conversion_request_checks_witness:
  "convert_file (\<lambda>p. Pages [[ledger_table_1]]) (\<lambda>p. OcrText ''Item Qty'') ''uploads/notes.TXT''
     ''notes'' [''xlsx'', ''csv'', ''xml''] =
     ([], Inl (HTTPException 400 ''Unsupported file format''))
   \<and> convert_file (\<lambda>p. Pages [[ledger_table_1]]) (\<lambda>p. ImreadNone) ''uploads/doc.pdf'' ''doc''
       [''docx'', ''csv'', ''pdf''] =
     convert_file (\<lambda>p. Pages [[ledger_table_1]]) (\<lambda>p. ImreadNone) ''uploads/doc.pdf'' ''doc''
       [''csv'']"
proof -
  have "lower (splitext_ext ''uploads/notes.TXT'') \<notin> {''.pdf'', ''.png'', ''.jpg'', ''.jpeg''}"
    by (simp add: extension_of_txt)
  with conversion_request_checks [of "''uploads/notes.TXT''" "\<lambda>p. Pages [[ledger_table_1]]"
      "\<lambda>p. OcrText ''Item Qty''" "''notes''" "[''xlsx'', ''csv'', ''xml'']"]
  have a: "convert_file (\<lambda>p. Pages [[ledger_table_1]]) (\<lambda>p. OcrText ''Item Qty'')
     ''uploads/notes.TXT'' ''notes'' [''xlsx'', ''csv'', ''xml''] =
     ([], Inl (HTTPException 400 ''Unsupported file format''))"
    by blast
  have b: "convert_file (\<lambda>p. Pages [[ledger_table_1]]) (\<lambda>p. ImreadNone) ''uploads/doc.pdf''
      ''doc'' [''docx'', ''csv'', ''pdf''] =
     convert_file (\<lambda>p. Pages [[ledger_table_1]]) (\<lambda>p. ImreadNone) ''uploads/doc.pdf'' ''doc''
       [''csv'']"
    using conversion_request_checks [of "''uploads/doc.pdf''" "\<lambda>p. Pages [[ledger_table_1]]"
      "\<lambda>p. ImreadNone" "''doc''" "[''docx'', ''csv'', ''pdf'']", THEN conjunct2]
    by simp
  from a b show ?thesis by blast
qed

text \<open>
  Claim C5 as the specification words it fails at a format that is not supported.
  Asked for \<open>docx\<close>, the conversion of a PDF runs the extraction, writes no file and
  returns success with no converted file. No exception is raised, before the extraction
  or after it.
\<close>

theorem unknown_format_converts:
  "convert_file (\<lambda>p. Pages [[ledger_table_1]]) (\<lambda>p. ImreadNone) ''uploads/doc.pdf'' ''doc''
     [''docx''] =
   ([PdfExtraction],
    Inr \<lparr>resp_status = ''success'', resp_message = ''File converted successfully'',
         resp_file_id = ''doc'', resp_headers = [Str ''Item'', Str ''Qty''],
         resp_rows = [[(Str ''Item'', Scalar ''Pen''), (Str ''Qty'', Scalar ''3'')]],
         converted_files = []\<rparr>)"
  by (simp add: convert_file_def extract_data_def extension_of_pdf
      extract_tables_from_pdf_def DataFrame_def pd_concat_def ledger_table_1_def
      export_format_def dict_of_def row_getitem_def str_cell_def)

end
